theory Spec2Isabelle
  imports Complex_Main "HOL-Library.AList" "HOL-Library.Sublist"
begin

section \<open>Data model of the thread presenter\<close>

text \<open>
  The source is \<^verbatim>\<open>src/main/presenter/threadPresenter/index.ts\<close>. Strings are lists of
  characters; indices into a string count list elements the way JavaScript counts code
  units. \<^verbatim>\<open>Date.now()\<close> is a parameter \<open>now\<close> of every handler, and the token estimator
  \<^verbatim>\<open>approximateTokenSize\<close> of the library tokenx is a parameter \<open>ats\<close> with values in
  \<open>nat\<close>.
\<close>

datatype block_type = TContent | TReasoningContent | TSearch | TError

datatype block_status = Loading | Reading | Success | Error | Cancel

record block =
  btype :: block_type
  bcontent :: string
  bstatus :: block_status
  timestamp :: int
  extra_total :: "nat option"

text \<open>
  A JavaScript number, as far as the handlers need it: a finite value (rounding is not
  modelled), the two infinities and NaN. Negative zero never arises from the operands used
  here (differences of timestamps and token counts).
\<close>

datatype jsnum = Num real | PosInf | NegInf | NaN

fun js_div :: "jsnum \<Rightarrow> jsnum \<Rightarrow> jsnum" where
  "js_div (Num a) (Num b) =
     (if b = 0 then (if a = 0 then NaN else if 0 < a then PosInf else NegInf)
      else Num (a / b))"
| "js_div NaN y = NaN"
| "js_div x NaN = NaN"
| "js_div (Num a) PosInf = Num 0"
| "js_div (Num a) NegInf = Num 0"
| "js_div PosInf (Num b) = (if 0 \<le> b then PosInf else NegInf)"
| "js_div NegInf (Num b) = (if 0 \<le> b then NegInf else PosInf)"
| "js_div x y = NaN"

text \<open>The JavaScript comparison \<^verbatim>\<open>x >= 0\<close>.\<close>

fun js_nonneg :: "jsnum \<Rightarrow> bool" where
  "js_nonneg (Num a) = (0 \<le> a)"
| "js_nonneg PosInf = True"
| "js_nonneg NegInf = False"
| "js_nonneg NaN = False"

record metadata =
  totalTokens :: nat
  inputTokens :: nat
  outputTokens :: nat
  generationTime :: int
  md_firstTokenTime :: int
  tokensPerSecond :: jsnum
  md_reasoningStartTime :: "int option"
  md_reasoningEndTime :: "int option"
  model :: string
  provider :: string

datatype role = User | Assistant | System

datatype message_status = Pending | Sent | Failed

text \<open>
  What \<^verbatim>\<open>JSON.parse(message.content)\<close> makes of the stored content of a message: the
  block list that \<^verbatim>\<open>JSON.stringify\<close> wrote, or an exception (also when the store hands out
  content that is not a JSON string).
\<close>

datatype stored_content = Blocks "block list" | Unparsable

record message =
  msg_id :: string
  msg_conversationId :: string
  msg_role :: role
  msg_status :: message_status
  msg_content :: stored_content
  msg_metadata :: metadata

text \<open>
  \<^verbatim>\<open>GeneratingMessageState\<close>. The field \<open>message\<close> of the source is an object shared with
  nobody else while the generation runs; the model keeps its id and its block list.
\<close>

record gen_state =
  message_id :: string
  message_content :: "block list"
  conversationId :: string
  startTime :: int
  firstTokenTime :: "int option"
  promptTokens :: nat
  reasoningStartTime :: "int option"
  reasoningEndTime :: "int option"
  lastReasoningTime :: "int option"

record search_result =
  sr_title :: string
  sr_url :: string
  sr_content :: string
  sr_description :: string
  sr_icon :: string

text \<open>An entry of the role-tagged message list that is sent to the completion provider.\<close>

record formatted_message =
  fm_role :: role
  fm_content :: string

text \<open>
  The presenter's state: the ids of the stored conversations, the message store, the
  attachment rows, the table \<^verbatim>\<open>generatingMessages\<close>, a JavaScript \<^verbatim>\<open>Map\<close>
  (insertion-ordered, so an association list), and the streams started at the completion
  provider, each with its correlation id and the messages sent.
\<close>

record world =
  conversations :: "string list"
  messages :: "message list"
  attachments :: "(string \<times> search_result) list"
  generatingMessages :: "(string \<times> gen_state) list"
  streams :: "(string \<times> formatted_message list) list"

subsection \<open>The message store\<close>

text \<open>
  Modelled from the spec: the class \<^verbatim>\<open>MessageManager\<close> is not part of the sources. Its
  operations \<^verbatim>\<open>getMessage\<close>, \<^verbatim>\<open>updateMessageStatus\<close>, \<^verbatim>\<open>editMessage\<close> and
  \<^verbatim>\<open>updateMessageMetadata\<close> read and replace fields of the row with the given id; the
  metadata update merges the given fields into the stored ones.
\<close>

definition getMessage :: "world \<Rightarrow> string \<Rightarrow> message option" where
  "getMessage w i = find (\<lambda>m. msg_id m = i) (messages w)"

definition updateMessage :: "string \<Rightarrow> (message \<Rightarrow> message) \<Rightarrow> world \<Rightarrow> world" where
  "updateMessage i f w = w\<lparr>messages := map (\<lambda>m. if msg_id m = i then f m else m) (messages w)\<rparr>"

definition updateMessageStatus :: "string \<Rightarrow> message_status \<Rightarrow> world \<Rightarrow> world" where
  "updateMessageStatus i s = updateMessage i (\<lambda>m. m\<lparr>msg_status := s\<rparr>)"

definition editMessage :: "string \<Rightarrow> block list \<Rightarrow> world \<Rightarrow> world" where
  "editMessage i bs = updateMessage i (\<lambda>m. m\<lparr>msg_content := Blocks bs\<rparr>)"

definition updateMessageMetadata :: "string \<Rightarrow> (metadata \<Rightarrow> metadata) \<Rightarrow> world \<Rightarrow> world" where
  "updateMessageMetadata i f = updateMessage i (\<lambda>m. m\<lparr>msg_metadata := f (msg_metadata m)\<rparr>)"

section \<open>Stream event router\<close>

subsection \<open>Token events\<close>

text \<open>JavaScript truthiness of an optional string: present and not empty.\<close>

fun truthy :: "string option \<Rightarrow> bool" where
  "truthy None = False"
| "truthy (Some s) = (s \<noteq> [])"

fun str :: "string option \<Rightarrow> string" where
  "str None = []"
| "str (Some s) = s"

text \<open>
  The block list after a token event. \<^verbatim>\<open>lastBlock\<close> is read once, before both branches:
  it is a reference to the block that was last when the handler started, so the model
  keeps its index and the second branch reads and writes the block at that index.
\<close>

definition response_blocks ::
  "int \<Rightarrow> string option \<Rightarrow> string option \<Rightarrow> block list \<Rightarrow> block list" where
  "response_blocks now content reasoning_content bs =
    (let lastBlock = (if bs = [] then None else Some (length bs - 1));
         bs1 =
           (if truthy content then
              (case lastBlock of
                 Some i \<Rightarrow>
                   if btype (bs ! i) = TContent
                   then bs[i := (bs ! i)\<lparr>bcontent := bcontent (bs ! i) @ str content\<rparr>]
                   else bs[i := (bs ! i)\<lparr>bstatus := Success\<rparr>]
                        @ [\<lparr>btype = TContent, bcontent = str content, bstatus = Loading,
                             timestamp = now, extra_total = None\<rparr>]
               | None \<Rightarrow>
                   bs @ [\<lparr>btype = TContent, bcontent = str content, bstatus = Loading,
                          timestamp = now, extra_total = None\<rparr>])
            else bs)
     in
       (if truthy reasoning_content then
          (case lastBlock of
             Some i \<Rightarrow>
               if btype (bs1 ! i) = TReasoningContent
               then bs1[i := (bs1 ! i)\<lparr>bcontent := bcontent (bs1 ! i) @ str reasoning_content\<rparr>]
               else bs1[i := (bs1 ! i)\<lparr>bstatus := Success\<rparr>]
                    @ [\<lparr>btype = TReasoningContent, bcontent = str reasoning_content,
                         bstatus = Loading, timestamp = now, extra_total = None\<rparr>]
           | None \<Rightarrow>
               bs1 @ [\<lparr>btype = TReasoningContent, bcontent = str reasoning_content,
                       bstatus = Loading, timestamp = now, extra_total = None\<rparr>])
        else bs1))"

text \<open>The handler of \<^verbatim>\<open>STREAM_EVENTS.RESPONSE\<close>.\<close>

definition on_response ::
  "int \<Rightarrow> string \<Rightarrow> string option \<Rightarrow> string option \<Rightarrow> world \<Rightarrow> world" where
  "on_response now eventId content reasoning_content w =
    (case map_of (generatingMessages w) eventId of
       None \<Rightarrow> w
     | Some state \<Rightarrow>
         let first = (firstTokenTime state = None \<and> (truthy content \<or> truthy reasoning_content));
             state1 = (if first then state\<lparr>firstTokenTime := Some now\<rparr> else state);
             w1 = (if first
                   then updateMessageMetadata eventId
                          (\<lambda>md. md\<lparr>md_firstTokenTime := now - startTime state\<rparr>) w
                   else w);
             firstReasoning = (truthy reasoning_content \<and> reasoningStartTime state1 = None);
             state2 = (if firstReasoning then state1\<lparr>reasoningStartTime := Some now\<rparr> else state1);
             w2 = (if firstReasoning
                   then updateMessageMetadata eventId
                          (\<lambda>md. md\<lparr>md_reasoningStartTime := Some (now - startTime state)\<rparr>) w1
                   else w1);
             state3 = (if truthy reasoning_content then state2\<lparr>lastReasoningTime := Some now\<rparr>
                       else state2);
             state4 = state3\<lparr>message_content :=
                        response_blocks now content reasoning_content (message_content state3)\<rparr>
         in w2\<lparr>generatingMessages := AList.update eventId state4 (generatingMessages w2)\<rparr>)"

text \<open>A sequence of token events, each with its time, handled in order.\<close>

fun response_run ::
  "(int \<times> string option \<times> string option) list \<Rightarrow> block list \<Rightarrow> block list" where
  "response_run [] bs = bs"
| "response_run ((now, content, reasoning_content) # events) bs =
     response_run events (response_blocks now content reasoning_content bs)"

text \<open>The text held by the blocks of one type, in order.\<close>

definition text_of :: "block_type \<Rightarrow> block list \<Rightarrow> string" where
  "text_of ty bs = concat (map bcontent (filter (\<lambda>b. btype b = ty) bs))"

text \<open>
  The block invariant of the data model: no block before the last one is \<open>Loading\<close>.
\<close>

definition only_last_loading :: "block list \<Rightarrow> bool" where
  "only_last_loading bs = list_all (\<lambda>b. bstatus b \<noteq> Loading) (butlast bs)"

subsection \<open>The end event\<close>

definition is_answer :: "block \<Rightarrow> bool" where
  "is_answer b = (btype b = TContent \<or> btype b = TReasoningContent)"

definition completionTokens :: "(string \<Rightarrow> nat) \<Rightarrow> block list \<Rightarrow> nat" where
  "completionTokens ats bs =
     foldl (\<lambda>acc b. if is_answer b then acc + ats (bcontent b) else acc) 0 bs"

definition hasContentBlock :: "block list \<Rightarrow> bool" where
  "hasContentBlock bs = list_ex is_answer bs"

definition noModelResponse :: "int \<Rightarrow> block" where
  "noModelResponse now =
     \<lparr>btype = TError, bcontent = ''common.error.noModelResponse'', bstatus = Error,
      timestamp = now, extra_total = None\<rparr>"

definition end_blocks :: "int \<Rightarrow> block list \<Rightarrow> block list" where
  "end_blocks now bs =
    (let bs1 = map (\<lambda>b. b\<lparr>bstatus := Success\<rparr>) bs
     in if \<not> hasContentBlock bs1 then bs1 @ [noModelResponse now] else bs1)"

text \<open>
  The metadata the end handler writes. \<^verbatim>\<open>firstTokenTime ?? startTime\<close> tests for null;
  \<^verbatim>\<open>firstTokenTime ? ... : 0\<close> tests for truthiness, so a first token time of 0 counts as
  absent there.
\<close>

definition end_generationTime :: "int \<Rightarrow> gen_state \<Rightarrow> int" where
  "end_generationTime now state =
     now - (case firstTokenTime state of Some t \<Rightarrow> t | None \<Rightarrow> startTime state)"

definition end_metadata :: "(string \<Rightarrow> nat) \<Rightarrow> int \<Rightarrow> gen_state \<Rightarrow> metadata \<Rightarrow> metadata" where
  "end_metadata ats now state md =
    (let completion = completionTokens ats (map (\<lambda>b. b\<lparr>bstatus := Success\<rparr>) (message_content state));
         total = promptTokens state + completion;
         genTime = end_generationTime now state;
         tps = js_div (Num (real completion)) (js_div (Num (real_of_int genTime)) (Num 1000));
         md1 = md\<lparr>totalTokens := total, inputTokens := promptTokens state,
                  outputTokens := completion, generationTime := genTime,
                  md_firstTokenTime :=
                    (case firstTokenTime state of
                       Some t \<Rightarrow> if t \<noteq> 0 then t - startTime state else 0
                     | None \<Rightarrow> 0),
                  tokensPerSecond := tps\<rparr>
     in case (reasoningStartTime state, lastReasoningTime state) of
          (Some rs, Some re) \<Rightarrow>
            md1\<lparr>md_reasoningStartTime := Some (rs - startTime state),
                md_reasoningEndTime := Some (re - startTime state)\<rparr>
        | _ \<Rightarrow> md1)"

text \<open>The handler of \<^verbatim>\<open>STREAM_EVENTS.END\<close>.\<close>

definition on_end :: "(string \<Rightarrow> nat) \<Rightarrow> int \<Rightarrow> string \<Rightarrow> world \<Rightarrow> world" where
  "on_end ats now eventId w =
    (case map_of (generatingMessages w) eventId of
       None \<Rightarrow> w
     | Some state \<Rightarrow>
         let bs = end_blocks now (message_content state);
             w1 = updateMessageMetadata eventId (end_metadata ats now state) w;
             w2 = updateMessageStatus eventId Sent w1;
             w3 = editMessage eventId bs w2
         in w3\<lparr>generatingMessages := AList.delete eventId (generatingMessages w3)\<rparr>)"

section \<open>Prompt assembler\<close>

text \<open>
  The messages the assembler reads: a user message holds its text, its files and the
  search flag, an assistant message holds its blocks. The role of a message is read off
  its content.
\<close>

record message_file =
  f_name :: string
  f_content :: string

datatype message_content =
  UserContent string "message_file list" bool
| AssistantContent "block list"

record chat_message =
  cm_id :: string
  cm_content :: message_content

definition cm_role :: "chat_message \<Rightarrow> role" where
  "cm_role msg =
     (case cm_content msg of UserContent t fs s \<Rightarrow> User | AssistantContent bs \<Rightarrow> Assistant)"

subsection \<open>The user content and the file context\<close>

text \<open>
  The JavaScript string methods used by \<^verbatim>\<open>getAnswer\<close>: \<^verbatim>\<open>indexOf\<close> and \<^verbatim>\<open>lastIndexOf\<close>
  give the index of the first and of the last occurrence, or -1; \<^verbatim>\<open>slice\<close> counts a
  negative index from the end and clamps both indices to the string.
\<close>

fun indexOf_from :: "string \<Rightarrow> string \<Rightarrow> nat \<Rightarrow> int" where
  "indexOf_from p [] i = (if p = [] then int i else - 1)"
| "indexOf_from p (c # cs) i = (if prefix p (c # cs) then int i else indexOf_from p cs (Suc i))"

definition indexOf :: "string \<Rightarrow> string \<Rightarrow> int" where
  "indexOf s p = indexOf_from p s 0"

fun lastIndexOf_from :: "string \<Rightarrow> string \<Rightarrow> nat \<Rightarrow> int" where
  "lastIndexOf_from p [] i = (if p = [] then int i else - 1)"
| "lastIndexOf_from p (c # cs) i =
     (let r = lastIndexOf_from p cs (Suc i)
      in if 0 \<le> r then r else if prefix p (c # cs) then int i else - 1)"

definition lastIndexOf :: "string \<Rightarrow> string \<Rightarrow> int" where
  "lastIndexOf s p = lastIndexOf_from p s 0"

definition slice :: "string \<Rightarrow> int \<Rightarrow> int \<Rightarrow> string" where
  "slice s start fin =
    (let len = int (length s);
         from = (if start < 0 then max (len + start) 0 else min start len);
         to = (if fin < 0 then max (len + fin) 0 else min fin len)
     in take (nat (to - from)) (drop (nat from) s))"

definition slice_from :: "string \<Rightarrow> int \<Rightarrow> string" where
  "slice_from s start = slice s start (int (length s))"

text \<open>
  The string appended to the slice; its characters outside ASCII are given as the bytes
  of their UTF-8 encoding (no index is ever taken in it).
\<close>

definition answer_suffix :: string where
  "answer_suffix =
     [CHR 0xE4, CHR 0xBB, CHR 0xA5] @ '' answer ''
     @ [CHR 0xE7, CHR 0x9A, CHR 0x84, CHR 0xE5, CHR 0x86, CHR 0x85, CHR 0xE5, CHR 0xAE, CHR 0xB9,
        CHR 0xE4, CHR 0xB8, CHR 0xBA, CHR 0xE5, CHR 0x87, CHR 0x86]"

text \<open>
  The inner function \<^verbatim>\<open>getAnswer\<close> of \<^verbatim>\<open>startStreamCompletion\<close>; \<open>text\<close> is the text of
  the user message (empty when it has none).
\<close>

definition getAnswer :: "string \<Rightarrow> message_file list \<Rightarrow> message_file list" where
  "getAnswer text files =
    (case find (\<lambda>item. indexOf (f_content item) text > - 1) files of
       None \<Rightarrow> files
     | Some file \<Rightarrow>
         let textIndex = indexOf (f_content file) text;
             questionStart = lastIndexOf (slice (f_content file) 0 textIndex) ''question'';
             questionEnd = textIndex + indexOf (slice_from (f_content file) textIndex) ''question'';
             content = slice (f_content file) questionStart questionEnd @ answer_suffix
         in [file\<lparr>f_content := content\<rparr>])"

text \<open>The template literal \<^verbatim>\<open>userContent\<close>.\<close>

definition userContent :: "(message_file list \<Rightarrow> string) \<Rightarrow> string \<Rightarrow> message_file list \<Rightarrow> string" where
  "userContent getFileContext text files =
     [CHR 0x0A] @ ''      '' @ text @ [CHR 0x0A] @ ''      ''
     @ getFileContext (getAnswer text files) @ [CHR 0x0A] @ ''      ''"

subsection \<open>Occurrences of a string, declaratively\<close>

text \<open>
  The words of claim C3, to compare \<open>getAnswer\<close> with: \<open>p\<close> occurs in \<open>s\<close> at index \<open>i\<close>;
  the first index from \<open>k\<close> on where it occurs; the last index where it occurs and ends
  at or before \<open>t\<close>.
\<close>

definition occurs_at :: "string \<Rightarrow> string \<Rightarrow> nat \<Rightarrow> bool" where
  "occurs_at p s i = prefix p (drop i s)"

definition first_occurrence_from :: "string \<Rightarrow> string \<Rightarrow> nat \<Rightarrow> nat option" where
  "first_occurrence_from p s k = find (occurs_at p s) [k..<Suc (length s)]"

definition last_occurrence_before :: "string \<Rightarrow> string \<Rightarrow> nat \<Rightarrow> nat option" where
  "last_occurrence_before p s t =
     find (\<lambda>i. occurs_at p s i \<and> i + length p \<le> t) (rev [0..<Suc t])"

subsection \<open>Token budget and history selection\<close>

definition reservedTokens :: "(string \<Rightarrow> nat) \<Rightarrow> string \<Rightarrow> string \<Rightarrow> string \<Rightarrow> nat" where
  "reservedTokens ats searchPrompt systemPrompt enrichedUserMessage =
     (if searchPrompt \<noteq> [] then ats searchPrompt else 0)
     + (if systemPrompt \<noteq> [] then ats systemPrompt else 0)
     + ats enrichedUserMessage"

text \<open>
  The size of a history message, \<^verbatim>\<open>msgTokens\<close> in the loop. \<^verbatim>\<open>getFileContext\<close> (file
  \<^verbatim>\<open>fileContext.ts\<close>) and \<^verbatim>\<open>JSON.stringify\<close> are parameters.
\<close>

definition msgTokens ::
  "(string \<Rightarrow> nat) \<Rightarrow> (message_file list \<Rightarrow> string) \<Rightarrow> (block list \<Rightarrow> string)
   \<Rightarrow> chat_message \<Rightarrow> nat" where
  "msgTokens ats getFileContext stringify msg =
     ats (case cm_content msg of
            UserContent t fs s \<Rightarrow> t @ getFileContext fs
          | AssistantContent bs \<Rightarrow> stringify bs)"

text \<open>
  The loop over the history, newest first. \<^verbatim>\<open>unshift\<close> puts a selected message in front of
  the ones selected before; \<^verbatim>\<open>break\<close> ends the loop at the first message that does not fit.
\<close>

fun selectLoop ::
  "(chat_message \<Rightarrow> nat) \<Rightarrow> int \<Rightarrow> chat_message list \<Rightarrow> nat \<Rightarrow> chat_message list
   \<Rightarrow> chat_message list" where
  "selectLoop sz remaining [] currentLength selected = selected"
| "selectLoop sz remaining (msg # rest) currentLength selected =
     (if int (currentLength + sz msg) \<le> remaining
      then selectLoop sz remaining rest (currentLength + sz msg) (msg # selected)
      else selected)"

definition selectContext ::
  "(chat_message \<Rightarrow> nat) \<Rightarrow> int \<Rightarrow> nat \<Rightarrow> string \<Rightarrow> chat_message list
   \<Rightarrow> chat_message list" where
  "selectContext sz contextLength reserved userMessageId contextMessages =
    (let remainingContextLength = contextLength - int reserved
     in if remainingContextLength > 0
        then selectLoop sz remainingContextLength
               (rev (filter (\<lambda>msg. cm_id msg \<noteq> userMessageId) contextMessages)) 0 []
        else [])"

subsection \<open>Formatting and the merge pass\<close>

fun join :: "string \<Rightarrow> string list \<Rightarrow> string" where
  "join sep [] = []"
| "join sep [x] = x"
| "join sep (x # y # ys) = x @ sep @ join sep (y # ys)"

text \<open>The system entry; \<^verbatim>\<open>getArtifactsPrompt()\<close> is the parameter \<open>artifactsPrompt\<close>.\<close>

definition systemEntry :: "string \<Rightarrow> int \<Rightarrow> string \<Rightarrow> formatted_message list" where
  "systemEntry systemPrompt artifacts artifactsPrompt =
    (if systemPrompt \<noteq> [] then
       (if artifacts = 1
        then [\<lparr>fm_role = System,
               fm_content = systemPrompt @ [CHR 0x0A, CHR 0x0A] @ artifactsPrompt\<rparr>]
        else [\<lparr>fm_role = System, fm_content = systemPrompt\<rparr>])
     else
       (if artifacts = 1 then [\<lparr>fm_role = System, fm_content = artifactsPrompt\<rparr>] else []))"

text \<open>A history message as an entry; an assistant message with no content text is dropped.\<close>

definition formatContextMessage ::
  "(message_file list \<Rightarrow> string) \<Rightarrow> chat_message \<Rightarrow> formatted_message list" where
  "formatContextMessage getFileContext msg =
    (case cm_content msg of
       UserContent t fs s \<Rightarrow> [\<lparr>fm_role = User, fm_content = t @ getFileContext fs\<rparr>]
     | AssistantContent bs \<Rightarrow>
         let content = join [CHR 0x0A] (map bcontent (filter (\<lambda>b. btype b = TContent) bs))
         in if content = [] then [] else [\<lparr>fm_role = Assistant, fm_content = content\<rparr>])"

text \<open>
  The merge pass: an entry with the role of the last merged entry is appended to it after
  a newline, any other entry is pushed.
\<close>

fun mergeLoop :: "formatted_message list \<Rightarrow> formatted_message list \<Rightarrow> formatted_message list" where
  "mergeLoop mergedMessages [] = mergedMessages"
| "mergeLoop mergedMessages (currentMessage # rest) =
     (if mergedMessages \<noteq> [] \<and> fm_role (last mergedMessages) = fm_role currentMessage
      then mergeLoop
             (butlast mergedMessages
              @ [(last mergedMessages)\<lparr>fm_content :=
                    fm_content (last mergedMessages) @ [CHR 0x0A] @ fm_content currentMessage\<rparr>])
             rest
      else mergeLoop (mergedMessages @ [currentMessage]) rest)"

definition mergeMessages :: "formatted_message list \<Rightarrow> formatted_message list" where
  "mergeMessages formattedMessages = mergeLoop [] formattedMessages"

text \<open>
  The prompt of \<^verbatim>\<open>startStreamCompletion\<close> from the settings, the history, the search
  prompt (empty when there is none) and the enriched user turn: the merged entries and
  their token count.
\<close>

definition assemblePrompt ::
  "(string \<Rightarrow> nat) \<Rightarrow> (message_file list \<Rightarrow> string) \<Rightarrow> (block list \<Rightarrow> string) \<Rightarrow> string
   \<Rightarrow> string \<Rightarrow> int \<Rightarrow> int \<Rightarrow> string \<Rightarrow> chat_message list \<Rightarrow> string \<Rightarrow> string
   \<Rightarrow> formatted_message list \<times> nat" where
  "assemblePrompt ats getFileContext stringify artifactsPrompt systemPrompt contextLength artifacts
     userMessageId contextMessages searchPrompt enrichedUserMessage =
    (let reserved = reservedTokens ats searchPrompt systemPrompt enrichedUserMessage;
         selected = selectContext (msgTokens ats getFileContext stringify) contextLength reserved
                      userMessageId contextMessages;
         formattedMessages =
           systemEntry systemPrompt artifacts artifactsPrompt
           @ concat (map (formatContextMessage getFileContext) selected)
           @ [\<lparr>fm_role = User,
                fm_content = (if searchPrompt \<noteq> [] then searchPrompt else enrichedUserMessage)\<rparr>];
         merged = mergeMessages formattedMessages
     in (merged, foldl (\<lambda>acc msg. acc + ats (fm_content msg)) 0 merged))"

section \<open>Error finalisation, recovery and search\<close>

subsection \<open>The error path\<close>

text \<open>
  \<^verbatim>\<open>JSON.parse(message.content)\<close> inside its \<^verbatim>\<open>try\<close>: the stored blocks, or no blocks when
  parsing throws.
\<close>

definition parse_content :: "stored_content \<Rightarrow> block list" where
  "parse_content c = (case c of Blocks bs \<Rightarrow> bs | Unparsable \<Rightarrow> [])"

definition error_block :: "int \<Rightarrow> string \<Rightarrow> block" where
  "error_block now errorMessage =
     \<lparr>btype = TError, bcontent = errorMessage, bstatus = Error, timestamp = now,
      extra_total = None\<rparr>"

text \<open>
  \<^verbatim>\<open>handleMessageError\<close>: nothing for an unknown id; otherwise every loading block of the
  stored content becomes an error block, an error block with the message is appended, the
  status becomes \<open>Failed\<close> (\<^verbatim>\<open>'error'\<close>) and the content is written back.
\<close>

definition handleMessageError :: "int \<Rightarrow> string \<Rightarrow> string \<Rightarrow> world \<Rightarrow> world" where
  "handleMessageError now messageId errorMessage w =
    (case getMessage w messageId of
       None \<Rightarrow> w
     | Some message \<Rightarrow>
         let content = parse_content (msg_content message);
             content1 = map (\<lambda>block. if bstatus block = Loading then block\<lparr>bstatus := Error\<rparr>
                                      else block) content;
             content2 = content1 @ [error_block now errorMessage];
             w1 = updateMessageStatus messageId Failed w
         in editMessage messageId content2 w1)"

text \<open>A stored row after the error path has run for it once.\<close>

definition finalized :: "int \<Rightarrow> string \<Rightarrow> message \<Rightarrow> message" where
  "finalized now errorMessage m =
     m\<lparr>msg_status := Failed,
       msg_content :=
         Blocks (map (\<lambda>block. if bstatus block = Loading then block\<lparr>bstatus := Error\<rparr>
                               else block) (parse_content (msg_content m))
                 @ [error_block now errorMessage])\<rparr>"

text \<open>The handler of \<^verbatim>\<open>STREAM_EVENTS.ERROR\<close>; \<open>error\<close> is \<^verbatim>\<open>String(error)\<close>.\<close>

definition on_error :: "int \<Rightarrow> string \<Rightarrow> string \<Rightarrow> world \<Rightarrow> world" where
  "on_error now eventId error w =
    (case map_of (generatingMessages w) eventId of
       None \<Rightarrow> w
     | Some state \<Rightarrow>
         let w1 = handleMessageError now eventId error w
         in w1\<lparr>generatingMessages := AList.delete eventId (generatingMessages w1)\<rparr>)"

subsection \<open>The frame of startStreamCompletion\<close>

text \<open>
  \<^verbatim>\<open>startStreamCompletion\<close> returns at once when no table entry belongs to the
  conversation (the first entry in insertion order is taken). Otherwise it runs its
  \<^verbatim>\<open>try\<close> block, here the parameter \<open>tryBlock\<close>: from the state and the world it gives the
  world where the block ended or threw, and \<^verbatim>\<open>String(error)\<close> when it threw. The
  \<^verbatim>\<open>catch\<close> block calls \<^verbatim>\<open>handleMessageError\<close> and throws the error again.
\<close>

datatype completion = Returned | Raised string

definition startStreamCompletion ::
  "(gen_state \<Rightarrow> world \<Rightarrow> world \<times> string option) \<Rightarrow> int \<Rightarrow> string \<Rightarrow> world
   \<Rightarrow> world \<times> completion" where
  "startStreamCompletion tryBlock now cid w =
    (case find (\<lambda>state. conversationId state = cid) (map snd (generatingMessages w)) of
       None \<Rightarrow> (w, Returned)
     | Some state \<Rightarrow>
         (case tryBlock state w of
            (w1, None) \<Rightarrow> (w1, Returned)
          | (w1, Some error) \<Rightarrow>
              (handleMessageError now (message_id state) error w1, Raised error)))"

subsection \<open>Recovery at startup\<close>

text \<open>
  Modelled from the spec: \<^verbatim>\<open>getConversationList(page, pageSize)\<close> of the SQLite presenter
  and \<^verbatim>\<open>getMessageThread(conversationId, page, pageSize)\<close> of the message manager are not
  part of the sources. A page is the window of at most \<open>pageSize\<close> rows that starts after
  \<open>page - 1\<close> full pages, in the order of the store.
\<close>

definition page :: "nat \<Rightarrow> nat \<Rightarrow> 'a list \<Rightarrow> 'a list" where
  "page p pageSize xs = take pageSize (drop ((p - 1) * pageSize) xs)"

definition getConversationList :: "nat \<Rightarrow> nat \<Rightarrow> world \<Rightarrow> string list" where
  "getConversationList p pageSize w = page p pageSize (conversations w)"

definition getMessages :: "string \<Rightarrow> nat \<Rightarrow> nat \<Rightarrow> world \<Rightarrow> message list" where
  "getMessages cid p pageSize w =
     page p pageSize (filter (\<lambda>m. msg_conversationId m = cid) (messages w))"

text \<open>
  \<^verbatim>\<open>initializeUnfinishedMessages\<close>: the body of the loop over the conversations, and the
  loop over the first page of 1000 conversations. Failures of the store are not modelled,
  so the \<^verbatim>\<open>catch\<close> around the loops is never entered.
\<close>

definition recoverConversation :: "int \<Rightarrow> world \<Rightarrow> string \<Rightarrow> world" where
  "recoverConversation now w cid =
    (let pendingMessages =
           filter (\<lambda>msg. msg_role msg = Assistant \<and> msg_status msg = Pending)
             (getMessages cid 1 1000 w)
     in foldl (\<lambda>w1 message.
                 handleMessageError now (msg_id message) ''common.error.sessionInterrupted'' w1)
          w pendingMessages)"

definition initializeUnfinishedMessages :: "int \<Rightarrow> world \<Rightarrow> world" where
  "initializeUnfinishedMessages now w =
     foldl (recoverConversation now) w (getConversationList 1 1000 w)"

subsection \<open>Search augmenter\<close>

text \<open>
  \<^verbatim>\<open>startStreamSearch\<close>. The parameter \<open>rewrite\<close> stands for gathering the context messages
  and rewriting the query, \<open>search\<close> for the search backend; each gives \<open>Inl\<close> of
  \<^verbatim>\<open>String(error)\<close> when it throws. \<^verbatim>\<open>searchBlock\<close> is the first block of the message
  from the \<^verbatim>\<open>unshift\<close> on; \<open>put\<close> writes it there and persists the block list. The only
  exception that leaves the function is the one for a missing table entry.
\<close>

datatype thrown = StateNotFound

definition startStreamSearch ::
  "(string \<Rightarrow> string + string) \<Rightarrow> (string \<Rightarrow> string \<Rightarrow> string + search_result list) \<Rightarrow> int
   \<Rightarrow> string \<Rightarrow> string \<Rightarrow> string \<Rightarrow> world \<Rightarrow> (thrown + search_result list) \<times> world" where
  "startStreamSearch rewrite search now cid messageId query w =
    (case map_of (generatingMessages w) messageId of
       None \<Rightarrow> (Inl StateNotFound, w)
     | Some state \<Rightarrow>
         let searchBlock = \<lparr>btype = TSearch, bcontent = [], bstatus = Loading, timestamp = now,
                            extra_total = Some 0\<rparr>;
             rest = message_content state;
             put = (\<lambda>block w0.
                      editMessage messageId (block # rest)
                        (w0\<lparr>generatingMessages :=
                              AList.update messageId (state\<lparr>message_content := block # rest\<rparr>)
                                (generatingMessages w0)\<rparr>));
             w1 = put searchBlock w;
             catch = (\<lambda>error.
                        (Inr [], put (searchBlock\<lparr>bstatus := Error, bcontent := error\<rparr>) w1))
         in (case rewrite query of
               Inl error \<Rightarrow> catch error
             | Inr optimizedQuery \<Rightarrow>
                 (case search cid optimizedQuery of
                    Inl error \<Rightarrow> catch error
                  | Inr results \<Rightarrow>
                      let reading = searchBlock\<lparr>bstatus := Reading,
                                                extra_total := Some (length results)\<rparr>;
                          w2 = put reading w1;
                          w3 = w2\<lparr>attachments :=
                                     attachments w2 @ map (\<lambda>result. (messageId, result)) results\<rparr>;
                          w4 = put (reading\<lparr>bstatus := Success\<rparr>) w3
                      in (Inr results, w4))))"

subsection \<open>The try block of startStreamCompletion\<close>

text \<open>
  The settings of the conversation that the assembly reads, and the user message that is
  answered.
\<close>

record conversation_settings =
  cs_systemPrompt :: string
  cs_contextLength :: int
  cs_artifacts :: int

record user_turn =
  ut_id :: string
  ut_text :: string
  ut_files :: "message_file list"
  ut_search :: bool

text \<open>
  The collaborators of the try block, as parameters: the token estimator, \<^verbatim>\<open>getFileContext\<close>,
  \<^verbatim>\<open>JSON.stringify\<close>, \<^verbatim>\<open>getArtifactsPrompt\<close>, the lookup of the user message and of the
  context messages (\<open>Inl\<close> of \<^verbatim>\<open>String(error)\<close> when it throws), the content enricher, the
  query rewriting and the search backend of \<^verbatim>\<open>startStreamSearch\<close>, the exported function
  \<^verbatim>\<open>generateSearchPrompt\<close>, and the provider's \<^verbatim>\<open>startStreamCompletion\<close> (an error when it
  throws).
\<close>

record collaborators =
  co_approximateTokenSize :: "string \<Rightarrow> nat"
  co_getFileContext :: "message_file list \<Rightarrow> string"
  co_stringify :: "block list \<Rightarrow> string"
  co_getArtifactsPrompt :: string
  co_resolveUserMessage :: "world \<Rightarrow> string + user_turn \<times> chat_message list"
  co_enrichUserMessage :: "string \<Rightarrow> string \<Rightarrow> string"
  co_rewriteQuery :: "string \<Rightarrow> string + string"
  co_search :: "string \<Rightarrow> string \<Rightarrow> string + search_result list"
  co_generateSearchPrompt :: "string \<Rightarrow> search_result list \<Rightarrow> string"
  co_startStream :: "formatted_message list \<Rightarrow> string option"

text \<open>\<^verbatim>\<open>String(error)\<close> of the error thrown for a missing table entry, as UTF-8 bytes.\<close>

definition state_not_found_error :: string where
  "state_not_found_error =
     ''Error: '' @ [CHR 0xE6, CHR 0x89, CHR 0xBE, CHR 0xE4, CHR 0xB8, CHR 0x8D, CHR 0xE5, CHR 0x88,
        CHR 0xB0, CHR 0xE7, CHR 0x94, CHR 0x9F, CHR 0xE6, CHR 0x88, CHR 0x90, CHR 0xE7, CHR 0x8A,
        CHR 0xB6, CHR 0xE6, CHR 0x80, CHR 0x81]"

text \<open>
  The try block of \<^verbatim>\<open>startStreamCompletion\<close> (lines 745 to 947), an instance of the
  parameter \<open>tryBlock\<close>. \<^verbatim>\<open>searchResults\<close> is \<open>None\<close> for \<^verbatim>\<open>null\<close> and \<open>Some\<close> of the list
  that \<^verbatim>\<open>startStreamSearch\<close> returned; the test \<^verbatim>\<open>searchResults ? ... : ''\<close> is a test for
  \<^verbatim>\<open>null\<close> only, since every array is truthy in JavaScript, the empty one too. The table
  entry written at the end is a copy of the state with the shared message object, so it
  holds the blocks as the search left them. A started stream is recorded in \<open>streams\<close>.
\<close>

definition completionTry ::
  "collaborators \<Rightarrow> conversation_settings \<Rightarrow> int \<Rightarrow> string \<Rightarrow> gen_state \<Rightarrow> world
   \<Rightarrow> world \<times> string option" where
  "completionTry co settings now cid state w =
    (case co_resolveUserMessage co w of
       Inl error \<Rightarrow> (w, Some error)
     | Inr (userMessage, contextMessages) \<Rightarrow>
         let userContent =
               userContent (co_getFileContext co) (ut_text userMessage) (ut_files userMessage);
             searched =
               (if ut_search userMessage
                then (case startStreamSearch (co_rewriteQuery co) (co_search co) now cid
                             (message_id state) userContent w of
                        (Inl StateNotFound, w1) \<Rightarrow> (w1, Inl state_not_found_error)
                      | (Inr results, w1) \<Rightarrow> (w1, Inr (Some results)))
                else (w, Inr None))
         in (case searched of
               (w1, Inl error) \<Rightarrow> (w1, Some error)
             | (w1, Inr searchResults) \<Rightarrow>
                 let searchPrompt =
                       (case searchResults of
                          Some results \<Rightarrow> co_generateSearchPrompt co userContent results
                        | None \<Rightarrow> []);
                     enrichedUserMessage =
                       co_enrichUserMessage co (ut_text userMessage) userContent;
                     assembled =
                       assemblePrompt (co_approximateTokenSize co) (co_getFileContext co)
                         (co_stringify co) (co_getArtifactsPrompt co) (cs_systemPrompt settings)
                         (cs_contextLength settings) (cs_artifacts settings) (ut_id userMessage)
                         contextMessages searchPrompt enrichedUserMessage;
                     current =
                       (case map_of (generatingMessages w1) (message_id state) of
                          Some s \<Rightarrow> message_content s
                        | None \<Rightarrow> message_content state);
                     w2 = w1\<lparr>generatingMessages :=
                               AList.update (message_id state)
                                 (state\<lparr>message_content := current, startTime := now,
                                        firstTokenTime := None, promptTokens := snd assembled\<rparr>)
                                 (generatingMessages w1)\<rparr>;
                     w3 = updateMessageMetadata (message_id state)
                            (\<lambda>md. md\<lparr>totalTokens := snd assembled, generationTime := 0,
                                      md_firstTokenTime := 0, tokensPerSecond := Num 0\<rparr>) w2
                 in (case co_startStream co (fst assembled) of
                       Some error \<Rightarrow> (w3, Some error)
                     | None \<Rightarrow>
                         (w3\<lparr>streams := streams w3 @ [(message_id state, fst assembled)]\<rparr>,
                          None))))"

section \<open>Example data\<close>

definition example_metadata :: metadata where
  "example_metadata =
     \<lparr>totalTokens = 0, inputTokens = 0, outputTokens = 0, generationTime = 0,
      md_firstTokenTime = 0, tokensPerSecond = Num 0, md_reasoningStartTime = None,
      md_reasoningEndTime = None, model = ''gpt-4'', provider = ''openai''\<rparr>"

definition example_block :: "block_type \<Rightarrow> string \<Rightarrow> block_status \<Rightarrow> block" where
  "example_block ty s st =
     \<lparr>btype = ty, bcontent = s, bstatus = st, timestamp = 0, extra_total = None\<rparr>"

text \<open>
  A generation that started at time 100 and whose first token arrived at time 130, with
  the given blocks.
\<close>

definition example_state :: "block list \<Rightarrow> gen_state" where
  "example_state bs =
     \<lparr>message_id = ''m1'', message_content = bs, conversationId = ''c1'', startTime = 100,
      firstTokenTime = Some 130, promptTokens = 12, reasoningStartTime = None,
      reasoningEndTime = None, lastReasoningTime = None\<rparr>"

definition example_message ::
  "string \<Rightarrow> role \<Rightarrow> message_status \<Rightarrow> stored_content \<Rightarrow> message" where
  "example_message i r s c =
     \<lparr>msg_id = i, msg_conversationId = ''c1'', msg_role = r, msg_status = s, msg_content = c,
      msg_metadata = example_metadata\<rparr>"

text \<open>
  A store with a user message and the assistant message \<open>m1\<close> that answers it, and the
  table entry of \<open>m1\<close> with the given in-memory blocks.
\<close>

definition example_world :: "block list \<Rightarrow> world" where
  "example_world bs =
     \<lparr>conversations = [''c1''],
      messages = [example_message ''u1'' User Sent Unparsable,
                  example_message ''m1'' Assistant Pending (Blocks [])],
      attachments = [],
      generatingMessages = [(''m1'', example_state bs)],
      streams = []\<rparr>"

definition example_history_message :: "string \<Rightarrow> chat_message" where
  "example_history_message i = \<lparr>cm_id = i, cm_content = UserContent ''hello'' [] False\<rparr>"

text \<open>
  Three earlier messages, oldest first, followed by the user message \<open>u1\<close> that is being
  answered.
\<close>

definition example_history :: "chat_message list" where
  "example_history =
     [example_history_message ''h1'', example_history_message ''h2'',
      example_history_message ''h3'', example_history_message ''u1'']"

definition example_files :: "message_file list" where
  "example_files =
     [\<lparr>f_name = ''notes.txt'', f_content = ''shopping list''\<rparr>,
      \<lparr>f_name = ''qa.txt'',
       f_content = ''question: capital of France? answer: Paris question: capital of Peru?''\<rparr>]"

text \<open>A file in which the text asked for, \<open>a question\<close>, contains the word itself.\<close>

definition example_nested_file :: message_file where
  "example_nested_file =
     \<lparr>f_name = ''qa.txt'', f_content = ''question: a question answer: x question: b''\<rparr>"

text \<open>
  A store with two conversations: in \<open>c1\<close> a user message and a pending assistant message
  with a loading block, in \<open>c2\<close> an assistant message that was sent.
\<close>

definition example_store :: world where
  "example_store =
     \<lparr>conversations = [''c1'', ''c2''],
      messages =
        [example_message ''u1'' User Sent Unparsable,
         example_message ''a1'' Assistant Pending (Blocks [example_block TContent ''par'' Loading]),
         (example_message ''a2'' Assistant Sent (Blocks []))\<lparr>msg_conversationId := ''c2''\<rparr>],
      attachments = [],
      generatingMessages = [],
      streams = []\<rparr>"

text \<open>
  A generation in flight for \<open>m1\<close> whose search block is still loading, in the store and
  in memory.
\<close>

definition example_failing_world :: world where
  "example_failing_world =
     \<lparr>conversations = [''c1''],
      messages =
        [example_message ''u1'' User Sent Unparsable,
         example_message ''m1'' Assistant Pending (Blocks [example_block TSearch [] Loading])],
      attachments = [],
      generatingMessages = [(''m1'', example_state [example_block TSearch [] Loading])],
      streams = []\<rparr>"

text \<open>
  A conversation with \<open>n\<close> pending assistant messages; message \<open>k\<close> has an id of \<open>k + 1\<close>
  characters.
\<close>

definition example_pending :: "nat \<Rightarrow> message" where
  "example_pending k =
     \<lparr>msg_id = replicate (Suc k) CHR ''m'', msg_conversationId = ''c1'', msg_role = Assistant,
      msg_status = Pending, msg_content = Blocks [], msg_metadata = example_metadata\<rparr>"

definition example_long_conversation :: "nat \<Rightarrow> world" where
  "example_long_conversation n =
     \<lparr>conversations = [''c1''], messages = map example_pending [0..<n], attachments = [],
      generatingMessages = [], streams = []\<rparr>"




section \<open>Properties of the stream event router\<close>

subsection \<open>The message store\<close>

lemma find_map_update:
  assumes "\<And>m. msg_id (f m) = msg_id m"
  shows "find (\<lambda>m. msg_id m = j) (map (\<lambda>m. if msg_id m = i then f m else m) ms) =
     map_option (\<lambda>m. if j = i then f m else m) (find (\<lambda>m. msg_id m = j) ms)"
  using assms by (induction ms) auto

lemma getMessage_updateMessage:
  assumes "\<And>m. msg_id (f m) = msg_id m"
  shows "getMessage (updateMessage i f w) j =
     map_option (\<lambda>m. if j = i then f m else m) (getMessage w j)"
  using find_map_update [OF assms] by (simp add: getMessage_def updateMessage_def)

lemma getMessage_generatingMessages_update [simp]:
  "getMessage (w\<lparr>generatingMessages := g\<rparr>) = getMessage w"
  by (simp add: getMessage_def fun_eq_iff)

lemma generatingMessages_updateMessage [simp]:
  "generatingMessages (updateMessage i f w) = generatingMessages w"
  by (simp add: updateMessage_def)

lemma attachments_updateMessage [simp]:
  "attachments (updateMessage i f w) = attachments w"
  by (simp add: updateMessage_def)

lemma getMessage_editMessage:
  "getMessage (editMessage i bs w) j =
     map_option (\<lambda>m. if j = i then m\<lparr>msg_content := Blocks bs\<rparr> else m) (getMessage w j)"
  by (simp add: editMessage_def getMessage_updateMessage)

lemma getMessage_updateMessageStatus:
  "getMessage (updateMessageStatus i s w) j =
     map_option (\<lambda>m. if j = i then m\<lparr>msg_status := s\<rparr> else m) (getMessage w j)"
  by (simp add: updateMessageStatus_def getMessage_updateMessage)

lemma getMessage_updateMessageMetadata:
  "getMessage (updateMessageMetadata i f w) j =
     map_option (\<lambda>m. if j = i then m\<lparr>msg_metadata := f (msg_metadata m)\<rparr> else m)
       (getMessage w j)"
  by (simp add: updateMessageMetadata_def getMessage_updateMessage)

lemma store_ops_keep_table [simp]:
  "generatingMessages (editMessage i bs w) = generatingMessages w"
  "generatingMessages (updateMessageStatus i s w) = generatingMessages w"
  "generatingMessages (updateMessageMetadata i f w) = generatingMessages w"
  by (simp_all add: editMessage_def updateMessageStatus_def updateMessageMetadata_def)

subsection \<open>The end event\<close>

lemma hasContentBlock_success:
  "hasContentBlock (map (\<lambda>b. b\<lparr>bstatus := Success\<rparr>) bs) = hasContentBlock bs"
  by (induction bs) (simp_all add: hasContentBlock_def is_answer_def)

lemma foldl_completion_success:
  "foldl (\<lambda>acc b. if is_answer b then acc + ats (bcontent b) else acc) a
     (map (\<lambda>b. b\<lparr>bstatus := Success\<rparr>) bs)
   = foldl (\<lambda>acc b. if is_answer b then acc + ats (bcontent b) else acc) a bs"
  by (induction bs arbitrary: a) (simp_all add: is_answer_def)

lemma completionTokens_success:
  "completionTokens ats (map (\<lambda>b. b\<lparr>bstatus := Success\<rparr>) bs) = completionTokens ats bs"
  by (simp add: completionTokens_def foldl_completion_success)

lemma tokensPerSecond_end_metadata:
  "tokensPerSecond (end_metadata ats now state md) =
     js_div (Num (real (completionTokens ats (message_content state))))
       (js_div (Num (real_of_int (end_generationTime now state))) (Num 1000))"
  by (simp add: end_metadata_def Let_def completionTokens_success split: option.splits prod.splits)

text \<open>
  The end handler, for a message that is in the table and in the store: it writes the
  metadata, the status \<open>Sent\<close> and the blocks \<open>end_blocks\<close>, and removes the table entry.
\<close>

lemma on_end_persists:
  assumes "map_of (generatingMessages w) eventId = Some state"
    and "getMessage w eventId = Some m"
  shows "getMessage (on_end ats now eventId w) eventId =
      Some (m\<lparr>msg_metadata := end_metadata ats now state (msg_metadata m),
               msg_status := Sent,
               msg_content := Blocks (end_blocks now (message_content state))\<rparr>)"
   and "map_of (generatingMessages (on_end ats now eventId w)) eventId = None"
  using assms
  by (simp_all add: on_end_def Let_def getMessage_editMessage getMessage_updateMessageStatus
      getMessage_updateMessageMetadata delete_conv)

lemma end_blocks_cases:
  "end_blocks now bs =
     map (\<lambda>b. b\<lparr>bstatus := Success\<rparr>) bs
     @ (if list_ex is_answer bs then [] else [noModelResponse now])"
  using hasContentBlock_success [of bs]
  by (simp add: end_blocks_def hasContentBlock_def Let_def)

text \<open>
  Claim C6. The end handler, applied to a message in the table whose block list has no
  block of type content or reasoning_content, persists the blocks (all set to success)
  followed by exactly one error block carrying the marker
  \<^verbatim>\<open>common.error.noModelResponse\<close>; applied to a message with at least one such block,
  it persists the blocks (all set to success) and appends nothing.
\<close>

theorem end_synthesized_error_block:
  assumes "map_of (generatingMessages w) eventId = Some state"
    and "getMessage w eventId = Some m"
  shows "map_option msg_content (getMessage (on_end ats now eventId w) eventId) =
      Some (Blocks (map (\<lambda>b. b\<lparr>bstatus := Success\<rparr>) (message_content state)
                    @ (if list_ex is_answer (message_content state) then []
                       else [noModelResponse now])))"
  using on_end_persists(1) [OF assms] by (simp add: end_blocks_cases)

theorem end_synthesized_error_block_witness:
  "map_option msg_content (getMessage (on_end length 130 ''m1'' (example_world [])) ''m1'') =
      Some (Blocks [noModelResponse 130])
   \<and> map_option msg_content (getMessage (on_end length 130 ''m1''
           (example_world [example_block TSearch [] Error, example_block TContent ''hi'' Loading]))
         ''m1'') =
      Some (Blocks [example_block TSearch [] Success, example_block TContent ''hi'' Success])"
  using end_synthesized_error_block [of "example_world []" "''m1''" "example_state []"
      "example_message ''m1'' Assistant Pending (Blocks [])" length 130]
    end_synthesized_error_block [of
      "example_world [example_block TSearch [] Error, example_block TContent ''hi'' Loading]"
      "''m1''"
      "example_state [example_block TSearch [] Error, example_block TContent ''hi'' Loading]"
      "example_message ''m1'' Assistant Pending (Blocks [])" length 130]
  by (simp add: example_world_def example_state_def example_message_def getMessage_def
      example_block_def is_answer_def)

text \<open>
  Claim C1, as the code has it. The end handler computes \<open>tokensPerSecond\<close> as the
  JavaScript quotient \<^verbatim>\<open>completionTokens / (generationTime / 1000)\<close> with no guard. The
  division never faults. For a positive generation time the value is the finite,
  non-negative quotient. For a generation time of 0 the division is not skipped: the value
  is \<open>+Infinity\<close> when there are completion tokens (non-negative, but not the raw token
  count) and \<open>NaN\<close> when there are none.
\<close>

theorem tokensPerSecond_amended:
  "0 \<le> end_generationTime now state \<Longrightarrow>
   tokensPerSecond (end_metadata ats now state md) =
     (if end_generationTime now state = 0
      then (if completionTokens ats (message_content state) = 0 then NaN else PosInf)
      else Num (real (completionTokens ats (message_content state)) * 1000
                / real_of_int (end_generationTime now state)))
   \<and> (0 < end_generationTime now state \<or> 0 < completionTokens ats (message_content state)
        \<longrightarrow> js_nonneg (tokensPerSecond (end_metadata ats now state md)))"
  by (simp add: tokensPerSecond_end_metadata)

theorem tokensPerSecond_amended_witness:
  "tokensPerSecond (end_metadata length 2130
     (example_state [example_block TContent ''hello'' Loading]) example_metadata) = Num (5 / 2)
   \<and> js_nonneg (tokensPerSecond (end_metadata length 2130
         (example_state [example_block TContent ''hello'' Loading]) example_metadata))"
  using tokensPerSecond_amended [of 2130
      "example_state [example_block TContent ''hello'' Loading]" length example_metadata]
  by (simp add: end_generationTime_def example_state_def completionTokens_def
      example_block_def is_answer_def)

text \<open>
  Claim C1 as stated fails when the end event arrives in the millisecond of the first
  token (generation time 0): with five completion tokens the value is \<open>+Infinity\<close>, not
  the raw count 5, and with no completion tokens it is \<open>NaN\<close>, which is not non-negative.
\<close>

theorem tokensPerSecond_zero_time_counterexample:
  "end_generationTime 130 (example_state [example_block TContent ''hello'' Loading]) = 0
   \<and> completionTokens length [example_block TContent ''hello'' Loading] = 5
   \<and> tokensPerSecond (end_metadata length 130
         (example_state [example_block TContent ''hello'' Loading]) example_metadata) = PosInf
   \<and> tokensPerSecond (end_metadata length 130
         (example_state [example_block TContent ''hello'' Loading]) example_metadata) \<noteq> Num 5
   \<and> tokensPerSecond (end_metadata length 130 (example_state []) example_metadata) = NaN
   \<and> \<not> js_nonneg (tokensPerSecond (end_metadata length 130 (example_state []) example_metadata))"
  by (simp add: tokensPerSecond_end_metadata end_generationTime_def example_state_def
      completionTokens_def example_block_def is_answer_def)

subsection \<open>Token events\<close>

lemma response_blocks_snoc:
  "response_blocks now c r (ys @ [y]) =
    (let bs1 = (if truthy c then
                  (if btype y = TContent then ys @ [y\<lparr>bcontent := bcontent y @ str c\<rparr>]
                   else ys @ [y\<lparr>bstatus := Success\<rparr>,
                      \<lparr>btype = TContent, bcontent = str c, bstatus = Loading,
                             timestamp = now, extra_total = None\<rparr>])
                else ys @ [y])
     in if truthy r then
          (if btype y = TReasoningContent
           then bs1[length ys := (bs1 ! length ys)\<lparr>bcontent := bcontent (bs1 ! length ys) @ str r\<rparr>]
           else bs1[length ys := (bs1 ! length ys)\<lparr>bstatus := Success\<rparr>]
                @ [\<lparr>btype = TReasoningContent, bcontent = str r,
                         bstatus = Loading, timestamp = now, extra_total = None\<rparr>])
        else bs1)"
  by (simp add: response_blocks_def Let_def nth_append)

text \<open>
  A token event keeps the block invariant when it carries one kind of text, and also
  when it carries both and the trailing block is a content or reasoning block.
\<close>

lemma response_blocks_preserves:
  assumes "only_last_loading bs"
    and "truthy c \<and> truthy r \<longrightarrow> bs \<noteq> [] \<and> is_answer (last bs)"
  shows "only_last_loading (response_blocks now c r bs)"
proof (cases bs rule: rev_cases)
  case Nil
  with assms show ?thesis
    by (auto simp: response_blocks_def only_last_loading_def)
next
  case (snoc ys y)
  with assms show ?thesis
    by (auto simp: response_blocks_snoc only_last_loading_def Let_def is_answer_def nth_append
        butlast_append)
qed

text \<open>
  A sequence of token events that each carry one kind of text keeps the invariant.
\<close>

lemma response_run_single_kind:
  "only_last_loading bs \<Longrightarrow> list_all (\<lambda>(now, c, r). \<not> (truthy c \<and> truthy r)) events \<Longrightarrow>
   only_last_loading (response_run events bs)"
proof (induction events arbitrary: bs)
  case Nil
  then show ?case by simp
next
  case (Cons e events)
  obtain now c r where e: "e = (now, c, r)" by (cases e)
  from Cons.prems have "only_last_loading (response_blocks now c r bs)"
    by (intro response_blocks_preserves) (auto simp: e)
  with Cons show ?case by (simp add: e)
qed

text \<open>
  Every token event, also one that carries both kinds of text, adds its content text to
  the text of the content blocks and its reasoning text to the text of the reasoning
  blocks, and leaves the text of the other blocks alone: the two kinds never share a block.
\<close>

lemma response_blocks_text:
  "text_of TContent (response_blocks now c r bs)
     = text_of TContent bs @ (if truthy c then str c else [])
   \<and> text_of TReasoningContent (response_blocks now c r bs)
     = text_of TReasoningContent bs @ (if truthy r then str r else [])
   \<and> text_of TSearch (response_blocks now c r bs) = text_of TSearch bs
   \<and> text_of TError (response_blocks now c r bs) = text_of TError bs"
proof (cases bs rule: rev_cases)
  case Nil
  then show ?thesis
    by (simp add: response_blocks_def text_of_def Let_def)
next
  case (snoc ys y)
  then show ?thesis
    by (auto simp: response_blocks_snoc text_of_def Let_def nth_append)
qed

text \<open>
  Claim C2 fails on the code. A token event that carries both content and
  reasoning_content, for a message whose block list is still empty, pushes a content
  block and then a reasoning block; the second branch still holds the block that was
  last when the handler started (here none), so the content block just pushed is never
  set to success: the handler leaves two \<open>Loading\<close> blocks in the table entry, the first
  of them not final.
\<close>

theorem response_both_kinds_two_loading:
  "response_blocks 7 (Some ''a'') (Some ''b'') [] =
     [\<lparr>btype = TContent, bcontent = ''a'', bstatus = Loading, timestamp = 7, extra_total = None\<rparr>,
      \<lparr>btype = TReasoningContent, bcontent = ''b'', bstatus = Loading, timestamp = 7,
        extra_total = None\<rparr>]
   \<and> map_option message_content
        (map_of (generatingMessages
           (on_response 7 ''m1'' (Some ''a'') (Some ''b'') (example_world []))) ''m1'') =
       Some (response_blocks 7 (Some ''a'') (Some ''b'') [])
   \<and> only_last_loading []
   \<and> \<not> only_last_loading (response_blocks 7 (Some ''a'') (Some ''b'') [])"
  by (simp add: response_blocks_def only_last_loading_def on_response_def Let_def
      example_world_def example_state_def update_conv')

section \<open>Properties of the prompt assembler\<close>

subsection \<open>The merge pass\<close>

text \<open>After the merge pass no two neighbouring entries have the same role.\<close>

lemma mergeLoop_alternating:
  "distinct_adj (map fm_role acc) \<Longrightarrow> distinct_adj (map fm_role (mergeLoop acc ms))"
proof (induction ms arbitrary: acc)
  case Nil
  then show ?case by simp
next
  case (Cons m ms)
  show ?case
  proof (cases "acc \<noteq> [] \<and> fm_role (last acc) = fm_role m")
    case True
    then obtain ys y where acc: "acc = ys @ [y]" by (metis rev_exhaust)
    have "map fm_role (butlast acc @ [(last acc)\<lparr>fm_content := fm_content (last acc) @ [CHR 0x0A] @ fm_content m\<rparr>]) = map fm_role acc"
      by (simp add: acc)
    with Cons.prems have "distinct_adj (map fm_role (butlast acc @ [(last acc)\<lparr>fm_content := fm_content (last acc) @ [CHR 0x0A] @ fm_content m\<rparr>]))"
      by simp
    from Cons.IH [OF this] True show ?thesis by simp
  next
    case False
    with Cons.prems have "distinct_adj (map fm_role (acc @ [m]))"
      by (cases acc rule: rev_cases) (auto simp: distinct_adj_append_iff)
    from Cons.IH [OF this] False show ?thesis by auto
  qed
qed

text \<open>On entries whose neighbours differ in role the merge pass changes nothing.\<close>

lemma mergeLoop_fixed:
  "distinct_adj (map fm_role (acc @ ms)) \<Longrightarrow> mergeLoop acc ms = acc @ ms"
proof (induction ms arbitrary: acc)
  case Nil
  then show ?case by simp
next
  case (Cons m ms)
  from Cons.prems have ne: "\<not> (acc \<noteq> [] \<and> fm_role (last acc) = fm_role m)"
    by (cases acc rule: rev_cases) (auto simp: distinct_adj_append_iff)
  from Cons.prems have "distinct_adj (map fm_role ((acc @ [m]) @ ms))" by simp
  from Cons.IH [OF this] ne show ?case by auto
qed

text \<open>
  Claim C9. The merge pass is idempotent: for every list of role-tagged entries, merging
  the merged list again gives the merged list.
\<close>

theorem mergeMessages_idempotent:
  "mergeMessages (mergeMessages ms) = mergeMessages ms"
proof -
  have "distinct_adj (map fm_role (mergeMessages ms))"
    unfolding mergeMessages_def by (rule mergeLoop_alternating) simp
  then show ?thesis
    unfolding mergeMessages_def using mergeLoop_fixed [of "[]" "mergeLoop [] ms"] by simp
qed


subsection \<open>History selection\<close>

text \<open>
  The loop takes a prefix of its input (the newest messages), puts it in front of the
  accumulator in reverse, stays within the budget, and stops at a message that does not
  fit.
\<close>

lemma selectLoop_spec:
  assumes "int cur \<le> rem"
  shows "\<exists>taken rest. ms = taken @ rest
           \<and> selectLoop sz rem ms cur sel = rev taken @ sel
           \<and> int (cur + sum_list (map sz taken)) \<le> rem
           \<and> (rest \<noteq> [] \<longrightarrow> rem < int (cur + sum_list (map sz taken) + sz (hd rest)))"
  using assms
proof (induction ms arbitrary: cur sel)
  case Nil
  then show ?case by simp
next
  case (Cons m ms)
  show ?case
  proof (cases "int (cur + sz m) \<le> rem")
    case True
    from Cons.IH [OF True, of "m # sel"] obtain taken rest where
      h: "ms = taken @ rest" "selectLoop sz rem ms (cur + sz m) (m # sel) = rev taken @ m # sel"
         "int (cur + sz m + sum_list (map sz taken)) \<le> rem"
         "rest \<noteq> [] \<longrightarrow> rem < int (cur + sz m + sum_list (map sz taken) + sz (hd rest))"
      by blast
    show ?thesis
      apply (rule exI [of _ "m # taken"], rule exI [of _ rest])
      using h True by (simp add: add.assoc)
  next
    case False
    show ?thesis
      apply (rule exI [of _ "[]"], rule exI [of _ "m # ms"])
      using False Cons.prems by simp
  qed
qed

text \<open>
  Claim C7. With a positive remaining budget, the selected context is a suffix of the
  history without the current user message, in chronological order (whole messages, the
  newest ones); its total size is within the remaining budget; and when an older message
  was left out, adding the newest of the older ones would exceed the budget. For a context
  length of 1000, 100 reserved tokens and three history messages of size 400 each, the
  selection is the last two messages.
\<close>

theorem history_selection:
  "(0 < contextLength - int reserved \<longrightarrow>
     (\<exists>older.
        filter (\<lambda>msg. cm_id msg \<noteq> uid) history
          = older @ selectContext sz contextLength reserved uid history
        \<and> int (sum_list (map sz (selectContext sz contextLength reserved uid history)))
            \<le> contextLength - int reserved
        \<and> (older \<noteq> [] \<longrightarrow>
             contextLength - int reserved
               < int (sum_list (map sz
                        (selectContext sz contextLength reserved uid history))
                      + sz (last older)))))
   \<and> (sz a = 400 \<and> sz b = 400 \<and> sz c = 400
        \<and> cm_id a \<noteq> uid \<and> cm_id b \<noteq> uid \<and> cm_id c \<noteq> uid \<longrightarrow>
        selectContext sz 1000 100 uid [a, b, c] = [b, c])"
proof (intro conjI impI)
  assume pos: "0 < contextLength - int reserved"
  let ?h = "filter (\<lambda>msg. cm_id msg \<noteq> uid) history"
  let ?r = "contextLength - int reserved"
  from pos have sel: "selectContext sz contextLength reserved uid history
      = selectLoop sz ?r (rev ?h) 0 []"
    by (simp add: selectContext_def)
  from pos have "int 0 \<le> ?r" by simp
  from selectLoop_spec [OF this, of "rev ?h" sz "[]"] obtain taken rest where
    h: "rev ?h = taken @ rest" "selectLoop sz ?r (rev ?h) 0 [] = rev taken @ []"
       "int (0 + sum_list (map sz taken)) \<le> ?r"
       "rest \<noteq> [] \<longrightarrow> ?r < int (0 + sum_list (map sz taken) + sz (hd rest))"
    by blast
  from h(1) have "?h = rev rest @ rev taken"
    by (metis rev_append rev_rev_ident)
  moreover have "sum_list (map sz (rev taken)) = sum_list (map sz taken)"
    by (simp add: rev_map [symmetric])
  moreover have "rest \<noteq> [] \<Longrightarrow> last (rev rest) = hd rest"
    by (simp add: last_rev)
  ultimately show "\<exists>older. ?h = older @ selectContext sz contextLength reserved uid history
        \<and> int (sum_list (map sz (selectContext sz contextLength reserved uid history)))
            \<le> ?r
        \<and> (older \<noteq> [] \<longrightarrow>
             ?r < int (sum_list (map sz
                        (selectContext sz contextLength reserved uid history))
                      + sz (last older)))"
    using h(2,3,4) sel by (intro exI [of _ "rev rest"]) simp
next
  assume "sz a = 400 \<and> sz b = 400 \<and> sz c = 400
        \<and> cm_id a \<noteq> uid \<and> cm_id b \<noteq> uid \<and> cm_id c \<noteq> uid"
  then show "selectContext sz 1000 100 uid [a, b, c] = [b, c]"
    by (simp add: selectContext_def)
qed

theorem history_selection_witness:
  "selectContext (\<lambda>msg. 400) 1000 100 ''u1'' example_history
     = [example_history_message ''h2'', example_history_message ''h3'']
   \<and> (\<exists>older. filter (\<lambda>msg. cm_id msg \<noteq> ''u1'') example_history
          = older @ selectContext (\<lambda>msg. 400) 1000 100 ''u1'' example_history)
   \<and> selectContext (\<lambda>msg. 400) 1000 100 ''u1''
         [example_history_message ''h1'', example_history_message ''h2'',
          example_history_message ''h3'']
       = [example_history_message ''h2'', example_history_message ''h3'']"
  using history_selection [of 1000 100 "''u1''" example_history "\<lambda>msg. 400"
      "example_history_message ''h1''" "example_history_message ''h2''"
      "example_history_message ''h3''"]
  by (auto simp: selectContext_def example_history_def example_history_message_def)

text \<open>
  Claim C8. When the reserved tokens (search prompt, system prompt and enriched user turn)
  are at least the context length, the selected history context is empty.
\<close>

theorem reserved_exceeds_context_empty:
  "contextLength \<le> int (reservedTokens ats searchPrompt systemPrompt enrichedUserMessage) \<Longrightarrow>
   selectContext sz contextLength
     (reservedTokens ats searchPrompt systemPrompt enrichedUserMessage) uid history = []"
  by (simp add: selectContext_def)


theorem reserved_exceeds_context_empty_witness:
  "(1000 :: int) \<le> int (reservedTokens (\<lambda>s. 600) [] ''You are helpful.'' ''hello'')
   \<and> selectContext (\<lambda>msg. 400) 1000
         (reservedTokens (\<lambda>s. 600) [] ''You are helpful.'' ''hello'') ''u1'' example_history = []"
  using reserved_exceeds_context_empty [of 1000 "\<lambda>s. 600" "[]" "''You are helpful.''" "''hello''"
      "\<lambda>msg. 400" "''u1''" example_history]
  by (simp add: reservedTokens_def)

subsection \<open>The file context of the user content\<close>

lemma find_map_comp: "find P (map f xs) = map_option f (find (P \<circ> f) xs)"
  by (induction xs) auto

lemma find_append_case:
  "find P (xs @ ys) = (case find P xs of Some x \<Rightarrow> Some x | None \<Rightarrow> find P ys)"
  by (induction xs) auto

lemma upt_Suc_shift: "[0..<Suc (Suc n)] = 0 # map Suc [0..<Suc n]"
  by (simp add: upt_conv_Cons map_Suc_upt del: upt_Suc)

lemma find_upt_Suc:
  "find P [0..<Suc (Suc n)] =
     (if P 0 then Some 0 else map_option Suc (find (\<lambda>j. P (Suc j)) [0..<Suc n]))"
  by (simp only: upt_Suc_shift) (simp add: find_map_comp comp_def del: upt_Suc)

lemma find_rev_upt_Suc:
  "find P (rev [0..<Suc (Suc n)]) =
     (case find (\<lambda>j. P (Suc j)) (rev [0..<Suc n]) of
        Some j \<Rightarrow> Some (Suc j)
      | None \<Rightarrow> if P 0 then Some 0 else None)"
  by (simp only: upt_Suc_shift)
     (simp add: find_map_comp find_append_case comp_def rev_map
        del: upt_Suc split: option.splits)

lemma indexOf_from_find:
  "indexOf_from p s k =
     (case find (\<lambda>j. prefix p (drop j s)) [0..<Suc (length s)] of
        Some j \<Rightarrow> int (k + j) | None \<Rightarrow> - 1)"
proof (induction s arbitrary: k)
  case Nil
  then show ?case by simp
next
  case (Cons c cs)
  show ?case
    by (simp add: Cons.IH find_upt_Suc del: upt_Suc split: option.splits)
qed

lemma lastIndexOf_from_find:
  "lastIndexOf_from p s k =
     (case find (\<lambda>j. prefix p (drop j s)) (rev [0..<Suc (length s)]) of
        Some j \<Rightarrow> int (k + j) | None \<Rightarrow> - 1)"
proof (induction s arbitrary: k)
  case Nil
  then show ?case by simp
next
  case (Cons c cs)
  show ?case
    by (simp add: Cons.IH find_rev_upt_Suc Let_def del: upt_Suc split: option.splits)
qed


lemma indexOf_first_occurrence:
  "indexOf s p = (case first_occurrence_from p s 0 of Some j \<Rightarrow> int j | None \<Rightarrow> - 1)"
  by (simp add: indexOf_def indexOf_from_find first_occurrence_from_def occurs_at_def [abs_def]
      del: upt_Suc split: option.splits)

lemma find_SomeD: "find P xs = Some x \<Longrightarrow> P x \<and> x \<in> set xs"
  by (induction xs) (auto split: if_splits)

lemma first_occurrence_from_Some:
  assumes "first_occurrence_from p s k = Some i"
  shows "k \<le> i" "i \<le> length s" "prefix p (drop i s)" "i + length p \<le> length s"
proof -
  from assms have i: "i \<in> set [k..<Suc (length s)]" and pre: "occurs_at p s i"
    unfolding first_occurrence_from_def by (auto dest: find_SomeD simp del: upt_Suc)
  from i show "k \<le> i" "i \<le> length s" by (auto simp del: upt_Suc)
  from pre show "prefix p (drop i s)" by (simp add: occurs_at_def)
  from this have "length p \<le> length (drop i s)" by (rule prefix_length_le)
  with \<open>i \<le> length s\<close> show "i + length p \<le> length s" by simp
qed

lemma sublist_first_occurrence:
  "sublist p s \<longleftrightarrow> first_occurrence_from p s 0 \<noteq> None"
proof
  assume "sublist p s"
  then obtain ps ss where s: "s = ps @ p @ ss" by (auto simp: sublist_def)
  have "length ps \<in> set [0..<Suc (length s)]" by (simp add: s)
  moreover have "occurs_at p s (length ps)" by (simp add: s occurs_at_def)
  ultimately show "first_occurrence_from p s 0 \<noteq> None"
    unfolding first_occurrence_from_def find_None_iff by blast
next
  assume "first_occurrence_from p s 0 \<noteq> None"
  then obtain i where "first_occurrence_from p s 0 = Some i" by auto
  from first_occurrence_from_Some(3) [OF this] obtain ss where "drop i s = p @ ss"
    by (auto simp: prefix_def)
  then have "s = take i s @ p @ ss" by (metis append_take_drop_id)
  then show "sublist p s" unfolding sublist_def by blast
qed

lemma indexOf_found_iff: "indexOf s p > - 1 \<longleftrightarrow> sublist p s"
  by (simp add: indexOf_first_occurrence sublist_first_occurrence split: option.splits)

lemma find_upt_shift:
  assumes "t \<le> n"
  shows "find P [t..<Suc n] = map_option (\<lambda>j. j + t) (find (\<lambda>j. P (j + t)) [0..<Suc (n - t)])"
proof -
  from assms have "[t..<Suc n] = map (\<lambda>j. j + t) [0..<Suc (n - t)]"
    using map_add_upt [of t "Suc (n - t)"] by (simp del: upt_Suc)
  then show ?thesis by (simp add: find_map_comp comp_def del: upt_Suc)
qed

lemma indexOf_drop:
  assumes "t \<le> length s"
  shows "int t + indexOf (drop t s) p =
     (case first_occurrence_from p s t of Some j \<Rightarrow> int j | None \<Rightarrow> int t - 1)"
proof -
  let ?f = "find (\<lambda>j. prefix p (drop j (drop t s))) [0..<Suc (length s - t)]"
  have 1: "first_occurrence_from p s t = map_option (\<lambda>j. j + t) ?f"
    unfolding first_occurrence_from_def occurs_at_def [abs_def] find_upt_shift [OF assms]
    by (simp del: upt_Suc)
  have 2: "indexOf (drop t s) p = (case ?f of Some j \<Rightarrow> int j | None \<Rightarrow> - 1)"
    by (simp add: indexOf_def indexOf_from_find del: upt_Suc split: option.splits)
  show ?thesis unfolding 1 2 by (cases ?f) simp_all
qed

lemma prefix_take_iff: "prefix q (take n xs) \<longleftrightarrow> prefix q xs \<and> length q \<le> n"
proof
  assume h: "prefix q (take n xs)"
  then have "prefix q xs" using take_is_prefix [of n xs] by (rule prefix_order.trans)
  moreover from h have "length q \<le> length (take n xs)" by (rule prefix_length_le)
  ultimately show "prefix q xs \<and> length q \<le> n" by simp
next
  assume "prefix q xs \<and> length q \<le> n"
  then obtain ss where "xs = q @ ss" and "length q \<le> n" by (auto simp: prefix_def)
  then show "prefix q (take n xs)" by simp
qed

lemma lastIndexOf_take:
  assumes "t \<le> length s"
  shows "lastIndexOf (take t s) p =
     (case last_occurrence_before p s t of Some j \<Rightarrow> int j | None \<Rightarrow> - 1)"
proof -
  have "find (\<lambda>j. prefix p (drop j (take t s))) (rev [0..<Suc t])
      = find (\<lambda>i. occurs_at p s i \<and> i + length p \<le> t) (rev [0..<Suc t])"
    by (rule find_cong) (auto simp: drop_take prefix_take_iff occurs_at_def)
  moreover from assms have "length (take t s) = t" by simp
  ultimately show ?thesis
    by (simp add: lastIndexOf_def lastIndexOf_from_find last_occurrence_before_def
        del: upt_Suc length_take split: option.splits)
qed

lemma last_occurrence_before_Some:
  assumes "last_occurrence_before p s t = Some i"
  shows "i + length p \<le> t"
  using assms unfolding last_occurrence_before_def by (auto dest: find_SomeD simp del: upt_Suc)

lemma slice_prefix: "t \<le> length s \<Longrightarrow> slice s 0 (int t) = take t s"
  by (simp add: slice_def Let_def min_def)

lemma slice_from_drop: "t \<le> length s \<Longrightarrow> slice_from s (int t) = drop t s"
  by (simp add: slice_from_def slice_def Let_def min_def)

lemma slice_between:
  "a \<le> b \<Longrightarrow> b \<le> length s \<Longrightarrow> slice s (int a) (int b) = take (b - a) (drop a s)"
  by (simp add: slice_def Let_def min_def nat_diff_distrib')

lemma slice_from_end:
  "b \<le> int (length s) - 1 \<Longrightarrow> slice s (- 1) b = []"
  by (auto simp: slice_def Let_def min_def max_def)

lemma getAnswer_none:
  "find (\<lambda>item. sublist text (f_content item)) files = None \<Longrightarrow> getAnswer text files = files"
  by (simp add: getAnswer_def indexOf_found_iff)

lemma getAnswer_found:
  assumes "find (\<lambda>item. sublist text (f_content item)) files = Some file"
    and "first_occurrence_from text (f_content file) 0 = Some t"
  shows "getAnswer text files =
     [file\<lparr>f_content :=
        (case last_occurrence_before ''question'' (f_content file) t of
           None \<Rightarrow> []
         | Some qs \<Rightarrow>
             (case first_occurrence_from ''question'' (f_content file) t of
                Some qe \<Rightarrow> take (qe - qs) (drop qs (f_content file))
              | None \<Rightarrow> take (t - 1 - qs) (drop qs (f_content file))))
        @ answer_suffix\<rparr>]"
proof -
  let ?c = "f_content file"
  from first_occurrence_from_Some [OF assms(2)] have t: "t \<le> length ?c" by simp
  have ti: "indexOf ?c text = int t" by (simp add: indexOf_first_occurrence assms(2))
  have qs: "lastIndexOf (slice ?c 0 (int t)) ''question'' =
      (case last_occurrence_before ''question'' ?c t of Some j \<Rightarrow> int j | None \<Rightarrow> - 1)"
    using t by (simp add: slice_prefix lastIndexOf_take)
  have qe: "int t + indexOf (slice_from ?c (int t)) ''question'' =
      (case first_occurrence_from ''question'' ?c t of Some j \<Rightarrow> int j | None \<Rightarrow> int t - 1)"
    using t by (simp add: slice_from_drop indexOf_drop)
  have sl: "slice ?c (lastIndexOf (slice ?c 0 (int t)) ''question'')
              (int t + indexOf (slice_from ?c (int t)) ''question'') =
        (case last_occurrence_before ''question'' ?c t of
           None \<Rightarrow> []
         | Some qs \<Rightarrow>
             (case first_occurrence_from ''question'' ?c t of
                Some qe \<Rightarrow> take (qe - qs) (drop qs ?c)
              | None \<Rightarrow> take (t - 1 - qs) (drop qs ?c)))"
  proof (cases "last_occurrence_before ''question'' ?c t")
    case None
    have "(case first_occurrence_from ''question'' ?c t of Some j \<Rightarrow> int j | None \<Rightarrow> int t - 1)
        \<le> int (length ?c) - 1"
      using t by (auto split: option.splits dest: first_occurrence_from_Some(4))
    then show ?thesis unfolding qs qe None by (simp add: slice_from_end)
  next
    case (Some a)
    from last_occurrence_before_Some [OF Some] have a: "a + 8 \<le> t" by simp
    show ?thesis
    proof (cases "first_occurrence_from ''question'' ?c t")
      case None
      from a t have "slice ?c (int a) (int (t - 1)) = take (t - 1 - a) (drop a ?c)"
        by (intro slice_between) auto
      moreover from a have "int (t - 1) = int t - 1" by auto
      ultimately show ?thesis unfolding qs qe Some None by simp
    next
      case (Some b)
      from first_occurrence_from_Some [OF Some] a
      have "slice ?c (int a) (int b) = take (b - a) (drop a ?c)"
        by (intro slice_between) auto
      then show ?thesis unfolding qs qe \<open>last_occurrence_before ''question'' ?c t = Some a\<close> Some
        by simp
    qed
  qed
  from assms(1) have f: "find (\<lambda>item. indexOf (f_content item) text > - 1) files = Some file"
    by (simp add: indexOf_found_iff)
  show ?thesis
    by (simp only: getAnswer_def f option.case Let_def ti sl)
qed


text \<open>
  Claim C3, as the code has it. When no file's content contains the text, all files are
  used unchanged. Otherwise only the first file whose content contains the text is used,
  and its content is replaced by a slice of its content followed by the fixed suffix. With
  \<open>t\<close> the index of the first occurrence of the text: when the word \<open>question\<close> does not
  occur wholly before \<open>t\<close> the slice is empty; otherwise it starts at the last occurrence
  of \<open>question\<close> that ends at or before \<open>t\<close>, and it ends before the first occurrence of
  \<open>question\<close> at an index from \<open>t\<close> on (an occurrence inside the text counts), or, when
  there is none, before index \<open>t - 1\<close>.
\<close>

theorem getAnswer_amended:
  "((\<forall>item \<in> set files. \<not> sublist text (f_content item)) \<longrightarrow> getAnswer text files = files)
   \<and> (find (\<lambda>item. sublist text (f_content item)) files = Some file
        \<and> first_occurrence_from text (f_content file) 0 = Some t \<longrightarrow>
        getAnswer text files =
          [file\<lparr>f_content :=
             (case last_occurrence_before ''question'' (f_content file) t of
                None \<Rightarrow> []
              | Some qs \<Rightarrow>
                  (case first_occurrence_from ''question'' (f_content file) t of
                     Some qe \<Rightarrow> take (qe - qs) (drop qs (f_content file))
                   | None \<Rightarrow> take (t - 1 - qs) (drop qs (f_content file))))
             @ answer_suffix\<rparr>])"
proof (intro conjI impI)
  assume "\<forall>item \<in> set files. \<not> sublist text (f_content item)"
  then have "find (\<lambda>item. sublist text (f_content item)) files = None"
    by (simp add: find_None_iff)
  then show "getAnswer text files = files" by (rule getAnswer_none)
next
  assume "find (\<lambda>item. sublist text (f_content item)) files = Some file
        \<and> first_occurrence_from text (f_content file) 0 = Some t"
  then show "getAnswer text files =
          [file\<lparr>f_content :=
             (case last_occurrence_before ''question'' (f_content file) t of
                None \<Rightarrow> []
              | Some qs \<Rightarrow>
                  (case first_occurrence_from ''question'' (f_content file) t of
                     Some qe \<Rightarrow> take (qe - qs) (drop qs (f_content file))
                   | None \<Rightarrow> take (t - 1 - qs) (drop qs (f_content file))))
             @ answer_suffix\<rparr>]"
    using getAnswer_found by blast
qed

theorem getAnswer_amended_witness:
  "getAnswer ''capital of France'' example_files =
     [\<lparr>f_name = ''qa.txt'',
       f_content = ''question: capital of France? answer: Paris '' @ answer_suffix\<rparr>]
   \<and> getAnswer ''zebra'' example_files = example_files"
proof -
  have 1: "find (\<lambda>item. sublist ''capital of France'' (f_content item)) example_files
      = Some (example_files ! 1)"
    by code_simp
  have 2: "first_occurrence_from ''capital of France'' (f_content (example_files ! 1)) 0 = Some 10"
    by code_simp
  have 3: "last_occurrence_before ''question'' (f_content (example_files ! 1)) 10 = Some 0"
    by code_simp
  have 4: "first_occurrence_from ''question'' (f_content (example_files ! 1)) 10 = Some 43"
    by code_simp
  have 5: "\<forall>item \<in> set example_files. \<not> sublist ''zebra'' (f_content item)"
    by code_simp
  have 6: "(example_files ! 1)\<lparr>f_content := take (43 - 0) (drop 0 (f_content (example_files ! 1))) @ answer_suffix\<rparr>
     = \<lparr>f_name = ''qa.txt'',
       f_content = ''question: capital of France? answer: Paris '' @ answer_suffix\<rparr>"
    by (simp add: example_files_def)
  from getAnswer_amended [of example_files "''capital of France''" "example_files ! 1" 10] 1 2 3 4 6
    getAnswer_amended [of example_files "''zebra''"] 5
  show ?thesis by simp
qed

text \<open>
  Claim C3 as stated fails when the text itself contains the word \<open>question\<close>: the slice
  ends at the occurrence inside the text, not at the first occurrence after the text.
\<close>

theorem getAnswer_text_with_question_counterexample:
  "first_occurrence_from ''a question'' (f_content example_nested_file) 0 = Some 10
   \<and> last_occurrence_before ''question'' (f_content example_nested_file) 10 = Some 0
   \<and> first_occurrence_from ''question'' (f_content example_nested_file)
         (10 + length ''a question'') = Some 31
   \<and> getAnswer ''a question'' [example_nested_file]
       = [example_nested_file\<lparr>f_content := ''question: a '' @ answer_suffix\<rparr>]
   \<and> getAnswer ''a question'' [example_nested_file]
       \<noteq> [example_nested_file\<lparr>f_content :=
             take (31 - 0) (drop 0 (f_content example_nested_file)) @ answer_suffix\<rparr>]"
  by code_simp

section \<open>Properties of error finalisation, recovery and search\<close>

subsection \<open>The error path\<close>

lemma msg_id_finalized [simp]: "msg_id (finalized now e m) = msg_id m"
  by (simp add: finalized_def)

lemma msg_conversationId_finalized [simp]:
  "msg_conversationId (finalized now e m) = msg_conversationId m"
  by (simp add: finalized_def)

lemma distinct_ids_unique:
  assumes "distinct (map msg_id ms)" "m \<in> set ms" "m' \<in> set ms" "msg_id m = msg_id m'"
  shows "m = m'"
  using assms by (meson distinct_map inj_onD)

lemma find_by_id_in_set:
  "find (\<lambda>m. msg_id m = i) ms = Some m \<Longrightarrow> m \<in> set ms \<and> msg_id m = i"
  by (induction ms) (auto split: if_splits)

lemma handleMessageError_messages:
  assumes "distinct (map msg_id (messages w))"
  shows "handleMessageError now i e w =
     w\<lparr>messages := map (\<lambda>m. if msg_id m = i then finalized now e m else m) (messages w)\<rparr>"
proof (cases "getMessage w i")
  case None
  then have "\<forall>m \<in> set (messages w). msg_id m \<noteq> i"
    by (auto simp: getMessage_def find_None_iff)
  then have "map (\<lambda>m. if msg_id m = i then finalized now e m else m) (messages w) = messages w"
    by (induction "messages w") (auto simp: map_idI)
  with None show ?thesis by (simp add: handleMessageError_def)
next
  case (Some message)
  then have mem: "message \<in> set (messages w)" "msg_id message = i"
    using find_by_id_in_set by (auto simp: getMessage_def)
  have "map ((\<lambda>m. if msg_id m = i then m\<lparr>msg_content := Blocks (map (\<lambda>block. if bstatus block = Loading then block\<lparr>bstatus := Error\<rparr>
                                      else block) (parse_content (msg_content message)) @ [error_block now e])\<rparr> else m)
         \<circ> (\<lambda>m. if msg_id m = i then m\<lparr>msg_status := Failed\<rparr> else m)) (messages w)
      = map (\<lambda>m. if msg_id m = i then finalized now e m else m) (messages w)"
  proof (rule map_cong [OF refl])
    fix m assume "m \<in> set (messages w)"
    with assms mem have "msg_id m = i \<Longrightarrow> m = message"
      using distinct_ids_unique by blast
    then show "((\<lambda>m. if msg_id m = i then m\<lparr>msg_content := Blocks (map (\<lambda>block. if bstatus block = Loading then block\<lparr>bstatus := Error\<rparr>
                                      else block) (parse_content (msg_content message)) @ [error_block now e])\<rparr> else m)
         \<circ> (\<lambda>m. if msg_id m = i then m\<lparr>msg_status := Failed\<rparr> else m)) m
       = (if msg_id m = i then finalized now e m else m)"
      by (auto simp: finalized_def)
  qed
  with Some show ?thesis
    by (simp add: handleMessageError_def Let_def editMessage_def updateMessageStatus_def
        updateMessage_def)
qed


subsection \<open>Recovery at startup\<close>

lemma world_messages_id [simp]: "w\<lparr>messages := messages w\<rparr> = w"
  by simp

lemma handleMessageError_fold:
  assumes "distinct (map msg_id (messages w))" and "distinct ids"
  shows "foldl (\<lambda>w1 i. handleMessageError now i e w1) w ids =
     w\<lparr>messages := map (\<lambda>m. if msg_id m \<in> set ids then finalized now e m else m) (messages w)\<rparr>"
  using assms
proof (induction ids arbitrary: w)
  case Nil
  then show ?case by simp
next
  case (Cons i ids)
  let ?w = "handleMessageError now i e w"
  have w': "?w = w\<lparr>messages := map (\<lambda>m. if msg_id m = i then finalized now e m else m) (messages w)\<rparr>"
    by (rule handleMessageError_messages [OF Cons.prems(1)])
  have "map msg_id (messages ?w) = map msg_id (messages w)"
    by (simp add: w' comp_def if_distrib [of msg_id] cong: if_cong)
  with Cons.prems have d: "distinct (map msg_id (messages ?w))" by simp
  from Cons.prems have "distinct ids" "i \<notin> set ids" by auto
  from Cons.IH [OF d \<open>distinct ids\<close>] \<open>i \<notin> set ids\<close> show ?case
    by (simp add: w' comp_def)
qed

lemma recoverConversation_messages:
  assumes "distinct (map msg_id (messages w))"
  shows "recoverConversation now w cid =
     w\<lparr>messages :=
         map (\<lambda>m. if msg_role m = Assistant \<and> msg_status m = Pending
                     \<and> msg_conversationId m = cid
                     \<and> m \<in> set (take 1000 (filter (\<lambda>x. msg_conversationId x = cid) (messages w)))
                  then finalized now ''common.error.sessionInterrupted'' m else m)
           (messages w)\<rparr>"
proof -
  let ?page = "take 1000 (filter (\<lambda>x. msg_conversationId x = cid) (messages w))"
  let ?pending = "filter (\<lambda>msg. msg_role msg = Assistant \<and> msg_status msg = Pending) ?page"
  have sub: "set ?pending \<subseteq> set (messages w)"
    by (auto dest: in_set_takeD)
  have "distinct (map msg_id (filter (\<lambda>x. msg_conversationId x = cid) (messages w)))"
    using assms by (rule distinct_map_filter)
  then have "distinct (take 1000 (map msg_id (filter (\<lambda>x. msg_conversationId x = cid) (messages w))))"
    by (rule distinct_take)
  then have "distinct (map msg_id ?page)" by (simp add: take_map)
  then have dp: "distinct (map msg_id ?pending)" by (rule distinct_map_filter)
  have "recoverConversation now w cid =
      foldl (\<lambda>w1 i. handleMessageError now i ''common.error.sessionInterrupted'' w1) w
        (map msg_id ?pending)"
    by (simp add: recoverConversation_def getMessages_def page_def foldl_map)
  also have "\<dots> = w\<lparr>messages :=
       map (\<lambda>m. if msg_id m \<in> set (map msg_id ?pending)
                then finalized now ''common.error.sessionInterrupted'' m else m) (messages w)\<rparr>"
    by (rule handleMessageError_fold [OF assms dp])
  also have "map (\<lambda>m. if msg_id m \<in> set (map msg_id ?pending)
                then finalized now ''common.error.sessionInterrupted'' m else m) (messages w)
     = map (\<lambda>m. if msg_role m = Assistant \<and> msg_status m = Pending
                     \<and> msg_conversationId m = cid \<and> m \<in> set ?page
                  then finalized now ''common.error.sessionInterrupted'' m else m) (messages w)"
  proof (rule map_cong [OF refl])
    fix m assume m: "m \<in> set (messages w)"
    have "msg_id m \<in> set (map msg_id ?pending) \<longleftrightarrow> m \<in> set ?pending"
    proof
      assume "msg_id m \<in> set (map msg_id ?pending)"
      then obtain p where p: "p \<in> set ?pending" "msg_id p = msg_id m" by auto
      with sub have "p \<in> set (messages w)" by blast
      with assms m p(2) have "p = m" using distinct_ids_unique by blast
      with p(1) show "m \<in> set ?pending" by simp
    qed auto
    moreover have "m \<in> set ?pending \<longleftrightarrow>
        msg_role m = Assistant \<and> msg_status m = Pending \<and> msg_conversationId m = cid \<and> m \<in> set ?page"
      by (auto dest: in_set_takeD)
    ultimately show "(if msg_id m \<in> set (map msg_id ?pending)
                then finalized now ''common.error.sessionInterrupted'' m else m)
       = (if msg_role m = Assistant \<and> msg_status m = Pending
                     \<and> msg_conversationId m = cid \<and> m \<in> set ?page
                  then finalized now ''common.error.sessionInterrupted'' m else m)"
      by simp
  qed
  finally show ?thesis .
qed


lemma filter_map_unchanged:
  assumes "\<And>x. x \<in> set xs \<Longrightarrow> P (g x) = P x" and "\<And>x. x \<in> set xs \<Longrightarrow> P x \<Longrightarrow> g x = x"
  shows "filter P (map g xs) = filter P xs"
  using assms by (induction xs) auto

lemma recover_fold_messages:
  assumes "distinct (map msg_id (messages w))" and "distinct cs"
  shows "foldl (recoverConversation now) w cs =
     w\<lparr>messages :=
         map (\<lambda>m. if msg_role m = Assistant \<and> msg_status m = Pending
                     \<and> msg_conversationId m \<in> set cs
                     \<and> m \<in> set (take 1000 (filter (\<lambda>x. msg_conversationId x = msg_conversationId m)
                                             (messages w)))
                  then finalized now ''common.error.sessionInterrupted'' m else m)
           (messages w)\<rparr>"
  using assms(2)
proof (induction cs rule: rev_induct)
  case Nil
  then show ?case by (simp add: map_idI)
next
  case (snoc c cs)
  let ?fin = "finalized now ''common.error.sessionInterrupted''"
  let ?R = "\<lambda>cs m. msg_role m = Assistant \<and> msg_status m = Pending
                     \<and> msg_conversationId m \<in> set cs
                     \<and> m \<in> set (take 1000 (filter (\<lambda>x. msg_conversationId x = msg_conversationId m)
                                             (messages w)))"
  let ?g = "\<lambda>m. if ?R cs m then ?fin m else m"
  let ?w = "foldl (recoverConversation now) w cs"
  from snoc.prems have c: "c \<notin> set cs" and dcs: "distinct cs" by auto
  have w': "?w = w\<lparr>messages := map ?g (messages w)\<rparr>"
    by (rule snoc.IH [OF dcs])
  have ids: "map msg_id (messages ?w) = map msg_id (messages w)"
    by (simp add: w' comp_def if_distrib [of msg_id] cong: if_cong)
  with assms(1) have d: "distinct (map msg_id (messages ?w))" by simp
  have flt: "filter (\<lambda>x. msg_conversationId x = c) (messages ?w)
      = filter (\<lambda>x. msg_conversationId x = c) (messages w)"
    unfolding w' using c by (simp, intro filter_map_unchanged) auto
  have "foldl (recoverConversation now) w (cs @ [c]) = recoverConversation now ?w c"
    by simp
  also have "\<dots> = ?w\<lparr>messages :=
         map (\<lambda>m. if msg_role m = Assistant \<and> msg_status m = Pending
                     \<and> msg_conversationId m = c
                     \<and> m \<in> set (take 1000 (filter (\<lambda>x. msg_conversationId x = c) (messages w)))
                  then ?fin m else m)
           (messages ?w)\<rparr>"
    using recoverConversation_messages [OF d, of now c] by (simp only: flt)
  also have "\<dots> = w\<lparr>messages := map (\<lambda>m. if ?R (cs @ [c]) m then ?fin m else m) (messages w)\<rparr>"
  proof -
    have "(\<lambda>m. if msg_role m = Assistant \<and> msg_status m = Pending
                     \<and> msg_conversationId m = c
                     \<and> m \<in> set (take 1000 (filter (\<lambda>x. msg_conversationId x = c) (messages w)))
                  then ?fin m else m) \<circ> ?g
        = (\<lambda>m. if ?R (cs @ [c]) m then ?fin m else m)"
      using c by (intro ext) (auto simp: finalized_def)
    then show ?thesis unfolding w' by (simp del: set_append)
  qed
  finally show ?case .
qed


lemma find_map_ids:
  assumes "\<And>m. msg_id (g m) = msg_id m"
  shows "find (\<lambda>m. msg_id m = j) (map g ms) = map_option g (find (\<lambda>m. msg_id m = j) ms)"
  using assms by (induction ms) auto

lemma getMessage_member:
  assumes "distinct (map msg_id (messages w))" and "m \<in> set (messages w)"
  shows "getMessage w (msg_id m) = Some m"
proof -
  from assms(2) have "find (\<lambda>x. msg_id x = msg_id m) (messages w) \<noteq> None"
    by (auto simp: find_None_iff)
  then obtain x where x: "find (\<lambda>x. msg_id x = msg_id m) (messages w) = Some x" by auto
  from find_by_id_in_set [OF x] assms have "x = m" using distinct_ids_unique by blast
  with x show ?thesis by (simp add: getMessage_def)
qed

lemma initializeUnfinishedMessages_getMessage:
  assumes "distinct (map msg_id (messages w))" and "distinct (conversations w)"
  shows "getMessage (initializeUnfinishedMessages now w) i =
     map_option
       (\<lambda>m. if msg_role m = Assistant \<and> msg_status m = Pending
                 \<and> msg_conversationId m \<in> set (take 1000 (conversations w))
                 \<and> m \<in> set (take 1000 (filter (\<lambda>x. msg_conversationId x = msg_conversationId m)
                                         (messages w)))
              then finalized now ''common.error.sessionInterrupted'' m else m)
       (getMessage w i)"
proof -
  from assms(2) have "distinct (take 1000 (conversations w))" by (rule distinct_take)
  from recover_fold_messages [OF assms(1) this, of now] show ?thesis
    by (simp add: initializeUnfinishedMessages_def getConversationList_def page_def getMessage_def
        find_map_ids)
qed

lemma example_pending_inj: "example_pending j = example_pending k \<longleftrightarrow> j = k"
proof
  assume "example_pending j = example_pending k"
  then have "msg_id (example_pending j) = msg_id (example_pending k)" by simp
  then have "length (replicate (Suc j) CHR ''m'') = length (replicate (Suc k) CHR ''m'')"
    by (simp only: example_pending_def message.simps)
  then show "j = k" by simp
qed simp

lemma example_long_conversation_distinct:
  "distinct (map msg_id (messages (example_long_conversation n)))"
proof -
  have "inj_on (msg_id \<circ> example_pending) (set [0..<n])"
    by (rule inj_onI) (simp add: example_pending_def)
  then show ?thesis
    by (simp add: example_long_conversation_def distinct_map del: upt_rec_numeral)
qed

lemma example_long_conversation_page:
  assumes "1000 \<le> n"
  shows "take 1000 (filter (\<lambda>x. msg_conversationId x = ''c1'')
                      (messages (example_long_conversation n)))
     = map example_pending [0..<1000]"
proof -
  have "filter (\<lambda>x. msg_conversationId x = ''c1'') (map example_pending [0..<n])
      = map example_pending [0..<n]"
    by (simp add: filter_map comp_def example_pending_def del: upt_rec_numeral)
  moreover from assms have "take 1000 [0..<n] = [0..<1000]"
    using take_upt [of 0 1000 n] by (simp del: upt_rec_numeral)
  ultimately show ?thesis
    by (simp add: example_long_conversation_def take_map del: upt_rec_numeral)
qed

lemma example_long_conversation_not_recovered:
  assumes "1000 < n"
  shows "getMessage (initializeUnfinishedMessages now (example_long_conversation n))
           (msg_id (example_pending 1000)) = Some (example_pending 1000)"
proof -
  let ?w = "example_long_conversation n"
  have d: "distinct (map msg_id (messages ?w))" by (rule example_long_conversation_distinct)
  have dc: "distinct (conversations ?w)" by (simp add: example_long_conversation_def)
  from assms have mem: "example_pending 1000 \<in> set (messages ?w)"
    by (simp add: example_long_conversation_def del: upt_rec_numeral)
  have c1: "msg_conversationId (example_pending 1000) = ''c1''"
    by (simp add: example_pending_def)
  from assms have "1000 \<le> n" by simp
  from example_long_conversation_page [OF this]
  have "example_pending 1000 \<notin> set (take 1000 (filter (\<lambda>x. msg_conversationId x
            = msg_conversationId (example_pending 1000)) (messages ?w)))"
    unfolding c1 by (auto simp: example_pending_inj simp del: upt_rec_numeral)
  with initializeUnfinishedMessages_getMessage [OF d dc, of now "msg_id (example_pending 1000)"]
    getMessage_member [OF d mem]
  show ?thesis by simp
qed


text \<open>
  What recovery does in a store with distinct message ids and distinct conversation ids.
  A pending assistant message among the first 1000 messages of one of the first 1000
  conversations goes through the error path exactly once: its status becomes \<open>Failed\<close> and
  one block with the marker \<^verbatim>\<open>common.error.sessionInterrupted\<close> is appended to what
  \<^verbatim>\<open>JSON.parse\<close> made of its stored content, with the loading blocks marked as errors.
  Every other message is left as it is.
\<close>

lemma recovery_first_pages:
  assumes "distinct (map msg_id (messages w))" and "distinct (conversations w)"
    and "m \<in> set (messages w)"
  shows "getMessage (initializeUnfinishedMessages now w) (msg_id m) =
     Some (if msg_role m = Assistant \<and> msg_status m = Pending
              \<and> msg_conversationId m \<in> set (take 1000 (conversations w))
              \<and> m \<in> set (take 1000 (filter (\<lambda>x. msg_conversationId x = msg_conversationId m)
                                      (messages w)))
           then m\<lparr>msg_status := Failed,
                  msg_content :=
                    Blocks (map (\<lambda>block. if bstatus block = Loading
                                        then block\<lparr>bstatus := Error\<rparr> else block)
                              (parse_content (msg_content m))
                            @ [error_block now ''common.error.sessionInterrupted''])\<rparr>
           else m)"
  using initializeUnfinishedMessages_getMessage [OF assms(1,2), of now "msg_id m"]
    getMessage_member [OF assms(1,3)]
  by (simp add: finalized_def)

lemma recovery_first_pages_example:
  "getMessage (initializeUnfinishedMessages 9 example_store) ''a1'' =
     Some (example_message ''a1'' Assistant Failed
             (Blocks [example_block TContent ''par'' Error,
                      error_block 9 ''common.error.sessionInterrupted'']))
   \<and> getMessage (initializeUnfinishedMessages 9 example_store) ''u1'' =
     Some (example_message ''u1'' User Sent Unparsable)"
  using recovery_first_pages [of example_store
      "example_message ''a1'' Assistant Pending (Blocks [example_block TContent ''par'' Loading])" 9]
    recovery_first_pages [of example_store "example_message ''u1'' User Sent Unparsable" 9]
  by (simp add: example_store_def example_message_def example_block_def parse_content_def)

text \<open>
  Claim C5 fails on the code. The comments of the source say that all conversations are
  fetched and all pending assistant messages are handled, but the calls ask the store for
  page 1 with page size 1000 only: of 1001 pending assistant messages of one conversation,
  the last is still pending after recovery.
\<close>

theorem recovery_misses_beyond_first_page:
  "msg_role (example_pending 1000) = Assistant
   \<and> msg_status (example_pending 1000) = Pending
   \<and> example_pending 1000 \<in> set (messages (example_long_conversation 1001))
   \<and> map_option msg_status
         (getMessage (initializeUnfinishedMessages 0 (example_long_conversation 1001))
            (msg_id (example_pending 1000))) = Some Pending"
proof -
  have lt: "(1000 :: nat) < 1001" by simp
  have "msg_role (example_pending 1000) = Assistant"
    and "msg_status (example_pending 1000) = Pending"
    by (simp_all add: example_pending_def)
  moreover from lt have "example_pending 1000 \<in> set (messages (example_long_conversation 1001))"
    by (simp add: example_long_conversation_def del: upt_rec_numeral)
  moreover have "map_option msg_status
         (getMessage (initializeUnfinishedMessages 0 (example_long_conversation 1001))
            (msg_id (example_pending 1000))) = Some Pending"
    unfolding example_long_conversation_not_recovered [OF lt]
    by (simp add: example_pending_def)
  ultimately show ?thesis by blast
qed

subsection \<open>Errors during prompt assembly\<close>

lemma handleMessageError_keeps_table:
  "generatingMessages (handleMessageError now i e w) = generatingMessages w"
  by (simp add: handleMessageError_def Let_def split: option.splits)

lemma startStreamCompletion_catch:
  assumes "find (\<lambda>state. conversationId state = cid) (map snd (generatingMessages w)) = Some state"
    and "tryBlock state w = (w1, Some e)"
  shows "startStreamCompletion tryBlock now cid w =
      (handleMessageError now (message_id state) e w1, Raised e)"
    and "generatingMessages (fst (startStreamCompletion tryBlock now cid w)) = generatingMessages w1"
  using assms by (simp_all add: startStreamCompletion_def handleMessageError_keeps_table)

lemma on_error_removes:
  "map_of (generatingMessages (on_error now i e w)) i = None"
  by (simp add: on_error_def Let_def delete_conv split: option.splits)

text \<open>
  Claim C4 fails on the code. When the \<^verbatim>\<open>try\<close> block throws, the \<^verbatim>\<open>catch\<close> block
  finalizes the stored message as the error handler does (loading blocks marked error,
  error block appended, status \<open>Failed\<close>) and the error is thrown again, but the entry of
  the message stays in the table, where the error handler removes it.
\<close>

theorem assembly_error_keeps_state_entry:
  "snd (startStreamCompletion (\<lambda>state w. (w, Some ''Error: no user message'')) 200 ''c1''
          example_failing_world) = Raised ''Error: no user message''
   \<and> getMessage (fst (startStreamCompletion (\<lambda>state w. (w, Some ''Error: no user message''))
          200 ''c1'' example_failing_world)) ''m1'' =
       Some (example_message ''m1'' Assistant Failed
               (Blocks [example_block TSearch [] Error,
                        error_block 200 ''Error: no user message'']))
   \<and> messages (fst (startStreamCompletion (\<lambda>state w. (w, Some ''Error: no user message''))
          200 ''c1'' example_failing_world)) =
       messages (on_error 200 ''m1'' ''Error: no user message'' example_failing_world)
   \<and> map_of (generatingMessages (on_error 200 ''m1'' ''Error: no user message''
          example_failing_world)) ''m1'' = None
   \<and> map_of (generatingMessages (fst (startStreamCompletion
          (\<lambda>state w. (w, Some ''Error: no user message'')) 200 ''c1'' example_failing_world))) ''m1'' =
       Some (example_state [example_block TSearch [] Loading])"
  by (simp add: startStreamCompletion_def on_error_def handleMessageError_def Let_def
      example_failing_world_def example_state_def example_message_def example_block_def
      getMessage_def editMessage_def updateMessageStatus_def updateMessage_def parse_content_def)

subsection \<open>Search augmenter\<close>

text \<open>
  When the search backend throws, the search call returns the empty result list instead
  of throwing, and the search block, first in the block list of the message, has status
  \<open>Error\<close> and the stringified error as its content, in memory and in the store.
\<close>

lemma search_failure_degrades:
  assumes "map_of (generatingMessages w) messageId = Some state"
    and "getMessage w messageId = Some m"
    and "rewrite query = Inr q"
    and "search cid q = Inl err"
  shows "fst (startStreamSearch rewrite search now cid messageId query w) = Inr []
   \<and> map_option message_content
         (map_of (generatingMessages (snd (startStreamSearch rewrite search now cid messageId query w)))
            messageId)
       = Some (\<lparr>btype = TSearch, bcontent = err, bstatus = Error, timestamp = now,
                 extra_total = Some 0\<rparr> # message_content state)
   \<and> map_option msg_content
         (getMessage (snd (startStreamSearch rewrite search now cid messageId query w)) messageId)
       = Some (Blocks (\<lparr>btype = TSearch, bcontent = err, bstatus = Error, timestamp = now,
                         extra_total = Some 0\<rparr> # message_content state))"
  using assms
  by (simp add: startStreamSearch_def Let_def update_conv' getMessage_editMessage)

lemma search_failure_degrades_example:
  "fst (startStreamSearch Inr (\<lambda>cid q. Inl ''Error: timeout'') 150 ''c1'' ''m1'' ''weather''
          (example_world [])) = Inr []
   \<and> map_option msg_content
         (getMessage (snd (startStreamSearch Inr (\<lambda>cid q. Inl ''Error: timeout'') 150 ''c1'' ''m1''
            ''weather'' (example_world []))) ''m1'')
       = Some (Blocks [\<lparr>btype = TSearch, bcontent = ''Error: timeout'', bstatus = Error,
                         timestamp = 150, extra_total = Some 0\<rparr>])"
  using search_failure_degrades [of "example_world []" "''m1''" "example_state []"
      "example_message ''m1'' Assistant Pending (Blocks [])" Inr "''weather''" "''weather''"
      "\<lambda>cid q. Inl ''Error: timeout''" "''c1''" "''Error: timeout''" 150]
  by (simp add: example_world_def example_state_def example_message_def getMessage_def)


text \<open>
  The caller after a failed search: the try block ends without an error and starts the
  stream, and the prompt it sends is assembled with the citation prompt that
  \<^verbatim>\<open>generateSearchPrompt\<close> builds from the user content and no results.
\<close>

lemma completionTry_search_failure:
  assumes "co_resolveUserMessage co w = Inr (userMessage, contextMessages)"
    and "ut_search userMessage"
    and "map_of (generatingMessages w) (message_id state) = Some state"
    and "co_rewriteQuery co
           (userContent (co_getFileContext co) (ut_text userMessage) (ut_files userMessage))
         = Inr q"
    and "co_search co cid q = Inl err"
    and "\<And>ms. co_startStream co ms = None"
  shows "snd (completionTry co settings now cid state w) = None"
    and "streams (fst (completionTry co settings now cid state w)) =
       streams w
       @ [(message_id state,
           fst (assemblePrompt (co_approximateTokenSize co) (co_getFileContext co)
                  (co_stringify co) (co_getArtifactsPrompt co) (cs_systemPrompt settings)
                  (cs_contextLength settings) (cs_artifacts settings) (ut_id userMessage)
                  contextMessages
                  (co_generateSearchPrompt co
                     (userContent (co_getFileContext co) (ut_text userMessage)
                        (ut_files userMessage)) [])
                  (co_enrichUserMessage co (ut_text userMessage)
                     (userContent (co_getFileContext co) (ut_text userMessage)
                        (ut_files userMessage)))))]"
  using assms
  by (simp_all add: completionTry_def startStreamSearch_def Let_def editMessage_def
      updateMessageMetadata_def updateMessage_def)



end
